theory Spec2Isabelle
  imports Main "HOL-Library.Word"
begin

section \<open>JavaScript strings\<close>

text \<open>
  A JavaScript string is a sequence of 16-bit code units; \<open>length\<close>, \<open>indexOf\<close>,
  \<open>substring\<close> and indexing all count code units.
\<close>

type_synonym jschar = "16 word"
type_synonym jsstring = "jschar list"

text \<open>An ASCII literal as a JavaScript string.\<close>

definition str :: "string \<Rightarrow> jsstring" where
  "str s = map (\<lambda>c. of_nat (of_char c)) s"

definition nl :: jschar where
  "nl = 0x0A"

text \<open>
  The class \<open>\s\<close> of a regular expression, which is also what \<open>trim()\<close> strips:
  the WhiteSpace and LineTerminator code points of ECMAScript.
\<close>

definition isSpace :: "jschar \<Rightarrow> bool" where
  "isSpace c = (c = 0x20 \<or> (0x09 \<le> c \<and> c \<le> 0x0D) \<or> c = 0xA0 \<or> c = 0x1680
     \<or> (0x2000 \<le> c \<and> c \<le> 0x200A) \<or> c = 0x2028 \<or> c = 0x2029 \<or> c = 0x202F
     \<or> c = 0x205F \<or> c = 0x3000 \<or> c = 0xFEFF)"

text \<open>\<open>s.trim()\<close>\<close>

definition trim :: "jsstring \<Rightarrow> jsstring" where
  "trim s = rev (dropWhile isSpace (rev (dropWhile isSpace s)))"

text \<open>\<open>s.replace(/\s+/g, ' ')\<close>: every maximal run of whitespace becomes one space.\<close>

function collapseWs :: "jsstring \<Rightarrow> jsstring" where
  "collapseWs [] = []"
| "collapseWs (c # cs) =
     (if isSpace c then 0x20 # collapseWs (dropWhile isSpace cs) else c # collapseWs cs)"
  by pat_completeness auto
termination
  by (relation "measure length") (auto simp: length_dropWhile_le le_imp_less_Suc)

text \<open>
  \<open>s.indexOf(t)\<close>: the least position at which \<open>t\<close> occurs in \<open>s\<close>, or \<open>-1\<close>.
  The empty string occurs at position 0.
\<close>

fun indexOf :: "'a list \<Rightarrow> 'a list \<Rightarrow> int" where
  "indexOf [] t = (if t = [] then 0 else -1)"
| "indexOf (c # cs) t =
     (if take (length t) (c # cs) = t then 0
      else (let r = indexOf cs t in if r = -1 then -1 else r + 1))"

text \<open>\<open>s.includes(t)\<close>\<close>

definition includes_str :: "'a list \<Rightarrow> 'a list \<Rightarrow> bool" where
  "includes_str s t = (indexOf s t \<noteq> -1)"

text \<open>\<open>s.substring(0, n)\<close> for \<open>0 \<le> n\<close>\<close>

definition substring0 :: "'a list \<Rightarrow> nat \<Rightarrow> 'a list" where
  "substring0 s n = take n s"

text \<open>
  \<open>s.split(sep)\<close> for a separator of one code unit: the segments between the
  separators, in order, empty segments kept; the empty string gives one empty segment.
\<close>

fun split :: "'a \<Rightarrow> 'a list \<Rightarrow> 'a list list" where
  "split sep [] = [[]]"
| "split sep (c # cs) =
     (if c = sep then [] # split sep cs
      else (case split sep cs of [] \<Rightarrow> [[c]] | l # ls \<Rightarrow> (c # l) # ls))"

text \<open>\<open>lines.join(sep)\<close>\<close>

fun join :: "'a \<Rightarrow> 'a list list \<Rightarrow> 'a list" where
  "join sep [] = []"
| "join sep [l] = l"
| "join sep (l # l' # ls) = l @ sep # join sep (l' # ls)"

section \<open>The page\<close>

text \<open>
  The page's global state, as far as \<open>getSelectionLineRange\<close>,
  \<open>applyDecorationsToVditor\<close> and \<open>clearDecorations\<close> read or write it.
\<close>

datatype mode = Wysiwyg | Ir | Sv

text \<open>
  An element below the \<open>.vditor-ir\<close> container. The container's descendants are kept
  in document order, and an element is named by its position in that sequence;
  \<open>parentElement\<close> is \<open>None\<close> when the parent is the container itself.
\<close>

record element =
  tagName :: string
  classList :: "string list"
  textContent :: jsstring
  parentElement :: "nat option"

text \<open>A change set: the line indices of each category, as the message carries them.\<close>

record decorations =
  added :: "int list"
  deleted :: "int list"
  modified :: "int list"

text \<open>
  The two callbacks that \<open>applyDecorationsToVditor\<close> hands to \<open>setTimeout\<close>, with
  the variables they close over: \<open>Deferred\<close> is the tagging pass,
  \<open>Retry\<close> is \<open>() => applyDecorationsToVditor(decorations, retry + 1)\<close>.
\<close>

datatype task = Deferred decorations nat | Retry decorations nat

text \<open>
  \<open>vditor\<close>: \<open>window.vditor\<close> is set; \<open>currentMode\<close>: \<open>window.vditor.vditor?.currentMode\<close>
  (\<open>None\<close> when undefined); \<open>getValue\<close>: the markdown source;
  \<open>irContainer\<close>: the descendants of \<open>document.querySelector('.vditor-ir')\<close>, \<open>None\<close>
  when there is no such element; \<open>toolbar\<close>: whether \<open>#cline-floating-toolbar\<close> has
  the class \<open>visible\<close>, \<open>None\<close> when there is no such element; \<open>timers\<close>: the pending
  timeouts, oldest first. Every timeout of this code has the same delay (200 ms), so
  they fire in the order in which they were set.
\<close>

record state =
  vditor :: bool
  currentMode :: "mode option"
  getValue :: jsstring
  irContainer :: "element list option"
  previousMode :: "mode option"
  toolbar :: "bool option"
  timers :: "task list"

text \<open>The exception of a method call on \<open>undefined\<close>.\<close>

datatype error = TypeError

text \<open>The interface \<open>SelectionInfo\<close>; \<open>text'\<close> is its field \<open>text\<close>.\<close>

record SelectionInfo =
  text' :: jsstring
  startLine :: int
  endLine :: int
  startChar :: int
  endChar :: int

section \<open>The Selection Resolver\<close>

text \<open>
  The inner loop of the whitespace-normalised tier: skip consecutive whitespace in the
  original.
\<close>

function skipWhitespace :: "jsstring \<Rightarrow> nat \<Rightarrow> nat" where
  "skipWhitespace sourceMarkdown originalPos =
     (if int originalPos < int (length sourceMarkdown) - 1
         \<and> isSpace (sourceMarkdown ! (originalPos + 1))
      then skipWhitespace sourceMarkdown (originalPos + 1)
      else originalPos)"
  by pat_completeness auto
termination
  by (relation "measure (\<lambda>(src, p). length src - p)") auto

declare skipWhitespace.simps [simp del]

text \<open>The outer loop: map a position of the normalised source back to the original.\<close>

function mapBack :: "jsstring \<Rightarrow> nat \<Rightarrow> nat \<Rightarrow> nat \<Rightarrow> nat" where
  "mapBack sourceMarkdown normalizedMatchIndex originalPos normalizedPos =
     (if normalizedPos < normalizedMatchIndex \<and> originalPos < length sourceMarkdown then
        (let originalPos' =
               (if isSpace (sourceMarkdown ! originalPos)
                then skipWhitespace sourceMarkdown originalPos else originalPos)
         in mapBack sourceMarkdown normalizedMatchIndex (originalPos' + 1) (normalizedPos + 1))
      else originalPos)"
  by pat_completeness auto
termination
  by (relation "measure (\<lambda>(src, n, p, q). n - q)") auto

declare mapBack.simps [simp del]

text \<open>
  The loops that turn an offset into a line and a column: the first line \<open>i\<close> with
  \<open>charCount + lineLength > index\<close>, and \<open>index - charCount\<close>; \<open>None\<close> when the loop
  ends without \<open>break\<close>.
\<close>

fun lineOfOffset :: "jsstring list \<Rightarrow> int \<Rightarrow> int \<Rightarrow> int \<Rightarrow> (int \<times> int) option" where
  "lineOfOffset [] i charCount index = None"
| "lineOfOffset (line # rest) i charCount index =
     (let lineLength = int (length line) + 1 in
      if charCount + lineLength > index then Some (i, index - charCount)
      else lineOfOffset rest (i + 1) (charCount + lineLength) index)"

text \<open>
  The fallback loop over the lines: the first line that includes the first line of the
  selection.
\<close>

fun fallbackLoop ::
  "jsstring list \<Rightarrow> int \<Rightarrow> int \<Rightarrow> jsstring \<Rightarrow> jsstring \<Rightarrow> SelectionInfo option" where
  "fallbackLoop [] i n firstSelectionLine selectedText = None"
| "fallbackLoop (line # rest) i n firstSelectionLine selectedText =
     (if includes_str line firstSelectionLine then
        (let selectionLines = split nl selectedText in
         Some \<lparr>text' = selectedText,
               startLine = i,
               endLine = min (i + int (length selectionLines) - 1) (n - 1),
               startChar = indexOf line firstSelectionLine,
               endChar = (if length selectionLines = 1
                          then indexOf line firstSelectionLine + int (length firstSelectionLine)
                          else int (length (last selectionLines)))\<rparr>)
      else fallbackLoop rest (i + 1) n firstSelectionLine selectedText)"

text \<open>
  \<open>getSelectionLineRange\<close>. \<open>Inr None\<close> is the result \<open>null\<close>. The one place that
  could throw is \<open>selectedText.split('\n')[0].trim()\<close>, were the array empty.
\<close>

definition getSelectionLineRange :: "state \<Rightarrow> jsstring \<Rightarrow> error + SelectionInfo option" where
  "getSelectionLineRange s selectedText =
     (if \<not> vditor s \<or> selectedText = [] then Inr None
      else
        let sourceMarkdown = getValue s;
            lines = split nl sourceMarkdown;
            normalizedSelection = trim (collapseWs selectedText);
            exactIndex = indexOf sourceMarkdown selectedText;
            matchIndex =
              (if exactIndex = -1 then
                 (let normalizedSource = collapseWs sourceMarkdown;
                      normalizedMatchIndex = indexOf normalizedSource normalizedSelection
                  in if normalizedMatchIndex \<noteq> -1
                     then int (mapBack sourceMarkdown (nat normalizedMatchIndex) 0 0)
                     else exactIndex)
               else exactIndex)
        in
          if matchIndex = -1 then
            (case split nl selectedText of
               [] \<Rightarrow> Inl TypeError
             | first # _ \<Rightarrow>
                 Inr (fallbackLoop lines 0 (int (length lines)) (trim first) selectedText))
          else
            let (startLine, startChar) =
                  (case lineOfOffset lines 0 0 matchIndex of
                     Some p \<Rightarrow> p | None \<Rightarrow> (0, 0));
                endIndex = matchIndex + int (length selectedText);
                (endLine, endChar) =
                  (case lineOfOffset lines 0 0 endIndex of
                     Some p \<Rightarrow> p
                   | None \<Rightarrow> (startLine, startChar + int (length selectedText)))
            in Inr (Some \<lparr>text' = selectedText, startLine = startLine, endLine = endLine,
                           startChar = startChar, endChar = endChar\<rparr>))"

text \<open>
  The offset of a line and column, for stating what the resolver returns: every line
  before it counts its length and one separator.
\<close>

text \<open>A page whose editor holds the given markdown and has rendered nothing yet.\<close>

definition document :: "jsstring \<Rightarrow> state" where
  "document src = \<lparr>vditor = True, currentMode = Some Ir, getValue = src, irContainer = None,
     previousMode = None, toolbar = None, timers = []\<rparr>"


section \<open>The Node Mapper\<close>

text \<open>
  \<open>irContainer.querySelectorAll('p, div.vditor-ir__node, h1, h2, h3, h4, h5, h6, li, pre,
  blockquote, td, th, .vditor-ir__block')\<close>: whether an element matches the selector.
\<close>

definition matchesBlock :: "element \<Rightarrow> bool" where
  "matchesBlock e =
     (tagName e \<in> set [''p'', ''h1'', ''h2'', ''h3'', ''h4'', ''h5'', ''h6'', ''li'', ''pre'',
                         ''blockquote'', ''td'', ''th'']
      \<or> (tagName e = ''div'' \<and> ''vditor-ir__node'' \<in> set (classList e))
      \<or> ''vditor-ir__block'' \<in> set (classList e))"

text \<open>The matching elements, in document order.\<close>

definition allBlockElements :: "element list \<Rightarrow> nat list" where
  "allBlockElements els = filter (\<lambda>i. matchesBlock (els ! i)) [0..<length els]"

text \<open>
  Strategy 1, the inner loop over the elements: the first element that is not used
  and whose normalised text equals the normalised line, includes it, or includes its
  first 20 code units when the line is longer than that.
\<close>

fun findExact :: "element list \<Rightarrow> nat list \<Rightarrow> nat set \<Rightarrow> jsstring \<Rightarrow> nat option" where
  "findExact els [] usedElements lineText = None"
| "findExact els (el # rest) usedElements lineText =
     (if el \<in> usedElements then findExact els rest usedElements lineText
      else
        let elText = textContent (els ! el);
            normalizedElText = trim (collapseWs elText);
            normalizedLineText = trim (collapseWs lineText)
        in if normalizedElText = normalizedLineText
              \<or> includes_str normalizedElText normalizedLineText
              \<or> (length normalizedLineText > 20
                  \<and> includes_str normalizedElText (substring0 normalizedLineText 20))
           then Some el
           else findExact els rest usedElements lineText)"

text \<open>Strategy 1, the loop over the lines.\<close>

fun strategy1 ::
  "element list \<Rightarrow> nat list \<Rightarrow> jsstring list \<Rightarrow> nat \<Rightarrow> (nat \<rightharpoonup> nat) \<times> nat set
   \<Rightarrow> (nat \<rightharpoonup> nat) \<times> nat set" where
  "strategy1 els allBlocks [] lineIndex (lineToElementMap, usedElements) =
     (lineToElementMap, usedElements)"
| "strategy1 els allBlocks (line # rest) lineIndex (lineToElementMap, usedElements) =
     (if trim line \<noteq> [] then
        (case findExact els allBlocks usedElements (trim line) of
           Some el \<Rightarrow>
             strategy1 els allBlocks rest (lineIndex + 1)
               (lineToElementMap(lineIndex \<mapsto> el), insert el usedElements)
         | None \<Rightarrow>
             strategy1 els allBlocks rest (lineIndex + 1) (lineToElementMap, usedElements))
      else strategy1 els allBlocks rest (lineIndex + 1) (lineToElementMap, usedElements))"

text \<open>
  Strategy 2, the inner loop from position \<open>i\<close> of \<open>allBlockElements\<close> on (the first
  argument is the rest of the list from there): the position and the element found.
\<close>

fun findPositional ::
  "element list \<Rightarrow> nat list \<Rightarrow> nat \<Rightarrow> nat set \<Rightarrow> jsstring \<Rightarrow> (nat \<times> nat) option" where
  "findPositional els [] i usedElements lineText = None"
| "findPositional els (el # rest) i usedElements lineText =
     (if el \<in> usedElements then findPositional els rest (i + 1) usedElements lineText
      else
        let elText = trim (textContent (els ! el))
        in if elText \<noteq> []
              \<and> (includes_str elText (substring0 lineText (min 15 (length lineText)))
                 \<or> includes_str lineText (substring0 elText (min 15 (length elText))))
           then Some (i, el)
           else findPositional els rest (i + 1) usedElements lineText)"

text \<open>Strategy 2, the loop over the lines, with the cursor \<open>elementIndex\<close>.\<close>

fun strategy2 ::
  "element list \<Rightarrow> nat list \<Rightarrow> jsstring list \<Rightarrow> nat \<Rightarrow> (nat \<rightharpoonup> nat) \<times> nat set \<times> nat
   \<Rightarrow> (nat \<rightharpoonup> nat) \<times> nat set \<times> nat" where
  "strategy2 els allBlocks [] lineIndex (lineToElementMap, usedElements, elementIndex) =
     (lineToElementMap, usedElements, elementIndex)"
| "strategy2 els allBlocks (line # rest) lineIndex (lineToElementMap, usedElements, elementIndex) =
     (if lineToElementMap lineIndex = None \<and> trim line \<noteq> []
         \<and> elementIndex < length allBlocks then
        (case findPositional els (drop elementIndex allBlocks) elementIndex usedElements
                (trim line) of
           Some (i, el) \<Rightarrow>
             strategy2 els allBlocks rest (lineIndex + 1)
               (lineToElementMap(lineIndex \<mapsto> el), insert el usedElements, i + 1)
         | None \<Rightarrow>
             strategy2 els allBlocks rest (lineIndex + 1)
               (lineToElementMap, usedElements, elementIndex))
      else strategy2 els allBlocks rest (lineIndex + 1)
             (lineToElementMap, usedElements, elementIndex))"

text \<open>
  Strategy 3: the closest mapped line before (\<open>i = lineIndex - 1\<close> down to 0) and
  after (\<open>i = lineIndex + 1\<close> up to the last line).
\<close>

fun beforeElement :: "(nat \<rightharpoonup> nat) \<Rightarrow> nat \<Rightarrow> nat option" where
  "beforeElement lineToElementMap 0 = None"
| "beforeElement lineToElementMap (Suc i) =
     (case lineToElementMap i of
        Some el \<Rightarrow> Some el
      | None \<Rightarrow> beforeElement lineToElementMap i)"

fun afterElement :: "(nat \<rightharpoonup> nat) \<Rightarrow> nat list \<Rightarrow> nat option" where
  "afterElement lineToElementMap [] = None"
| "afterElement lineToElementMap (i # rest) =
     (case lineToElementMap i of
        Some el \<Rightarrow> Some el
      | None \<Rightarrow> afterElement lineToElementMap rest)"

text \<open>The loop over the lines (given by their indices); the map grows as it runs.\<close>

fun strategy3 :: "nat \<Rightarrow> nat list \<Rightarrow> (nat \<rightharpoonup> nat) \<Rightarrow> (nat \<rightharpoonup> nat)" where
  "strategy3 n [] lineToElementMap = lineToElementMap"
| "strategy3 n (lineIndex # rest) lineToElementMap =
     (if lineToElementMap lineIndex = None then
        (case beforeElement lineToElementMap lineIndex of
           Some el \<Rightarrow> strategy3 n rest (lineToElementMap(lineIndex \<mapsto> el))
         | None \<Rightarrow>
             (case afterElement lineToElementMap [lineIndex + 1..<n] of
                Some el \<Rightarrow> strategy3 n rest (lineToElementMap(lineIndex \<mapsto> el))
              | None \<Rightarrow> strategy3 n rest lineToElementMap))
      else strategy3 n rest lineToElementMap)"

text \<open>The three strategies in turn: \<open>lineToElementMap\<close> as the tagging pass uses it.\<close>

definition buildLineToElementMap :: "element list \<Rightarrow> jsstring list \<Rightarrow> (nat \<rightharpoonup> nat)" where
  "buildLineToElementMap els lines =
     (let allBlocks = allBlockElements els;
          (m1, used1) = strategy1 els allBlocks lines 0 (Map.empty, {});
          (m2, used2, elementIndex) = strategy2 els allBlocks lines 0 (m1, used1, 0)
      in strategy3 (length lines) [0..<length lines] m2)"

section \<open>The Decoration Controller\<close>

text \<open>\<open>el.classList.add(c)\<close> and \<open>el.classList.remove(c1, c2, c3)\<close>\<close>

definition addClass :: "string \<Rightarrow> element \<Rightarrow> element" where
  "addClass c e = (if c \<in> set (classList e) then e else e\<lparr>classList := classList e @ [c]\<rparr>)"

definition decorationClasses :: "string list" where
  "decorationClasses = [''cline-added-line'', ''cline-deleted-line'', ''cline-modified-line'']"

definition isDecorated :: "element \<Rightarrow> bool" where
  "isDecorated e = (\<exists>c \<in> set decorationClasses. c \<in> set (classList e))"

definition removeDecorationClasses :: "element \<Rightarrow> element" where
  "removeDecorationClasses e =
     e\<lparr>classList := filter (\<lambda>c. c \<notin> set decorationClasses) (classList e)\<rparr>"

text \<open>
  The selector of the last resort,
  \<open>'p, div, h1, h2, h3, h4, h5, h6, li, pre, blockquote, .vditor-ir__node'\<close>.
\<close>

definition matchesAny :: "element \<Rightarrow> bool" where
  "matchesAny e =
     (tagName e \<in> set [''p'', ''div'', ''h1'', ''h2'', ''h3'', ''h4'', ''h5'', ''h6'', ''li'',
                         ''pre'', ''blockquote'']
      \<or> ''vditor-ir__node'' \<in> set (classList e))"

text \<open>
  \<open>applyDecorationToLine\<close>. An index outside the lines returns at once. A mapped
  element gets the class, and so does its parent when that is not the container and has
  the class \<open>vditor-ir__node\<close>. An unmapped line is looked up by its text; reading
  \<open>lines[lineNum]\<close> there would throw were the index outside the array.
\<close>

definition applyDecorationToLine ::
  "jsstring list \<Rightarrow> (nat \<rightharpoonup> nat) \<Rightarrow> int \<Rightarrow> string \<Rightarrow> element list \<Rightarrow> error + element list" where
  "applyDecorationToLine lines lineToElementMap lineNum className els =
     (if lineNum < 0 \<or> lineNum \<ge> int (length lines) then Inr els
      else
        (case lineToElementMap (nat lineNum) of
           Some element \<Rightarrow>
             (let els1 = els[element := addClass className (els ! element)]
              in case parentElement (els1 ! element) of
                   Some parent \<Rightarrow>
                     if parent < length els1
                        \<and> ''vditor-ir__node'' \<in> set (classList (els1 ! parent))
                     then Inr (els1[parent := addClass className (els1 ! parent)])
                     else Inr els1
                 | None \<Rightarrow> Inr els1)
         | None \<Rightarrow>
             if nat lineNum < length lines then
               (let lineText = trim (lines ! nat lineNum)
                in if lineText \<noteq> [] then
                     (case List.find
                             (\<lambda>i. matchesAny (els ! i)
                                \<and> (includes_str (textContent (els ! i)) lineText
                                   \<or> (length lineText > 15
                                      \<and> includes_str (textContent (els ! i))
                                           (substring0 lineText 15))))
                             [0..<length els] of
                        Some found \<Rightarrow> Inr (els[found := addClass className (els ! found)])
                      | None \<Rightarrow> Inr els)
                   else Inr els)
             else Inl TypeError))"

text \<open>\<open>ns.forEach((n) => applyDecorationToLine(n, className))\<close>; a throw ends the loop.\<close>

fun forEachLine ::
  "(int \<Rightarrow> element list \<Rightarrow> error + element list) \<Rightarrow> int list \<Rightarrow> element list
   \<Rightarrow> error + element list" where
  "forEachLine f [] els = Inr els"
| "forEachLine f (n # ns) els =
     (case f n els of
        Inl e \<Rightarrow> Inl e
      | Inr els' \<Rightarrow> forEachLine f ns els')"

text \<open>\<open>showFloatingToolbar\<close>, \<open>hideFloatingToolbar\<close> and \<open>setTimeout\<close>\<close>

definition showFloatingToolbar :: "state \<Rightarrow> state" where
  "showFloatingToolbar s = s\<lparr>toolbar := Some True\<rparr>"

definition hideFloatingToolbar :: "state \<Rightarrow> state" where
  "hideFloatingToolbar s =
     (case toolbar s of
        Some v \<Rightarrow> s\<lparr>toolbar := Some False\<rparr>
      | None \<Rightarrow> s)"

definition setTimeout :: "task \<Rightarrow> state \<Rightarrow> state" where
  "setTimeout t s = s\<lparr>timers := timers s @ [t]\<rparr>"

text \<open>
  \<open>irContainer.querySelectorAll('.cline-added-line, .cline-deleted-line,
  .cline-modified-line').forEach((el) => el.classList.remove(...))\<close>: the tree that
  \<open>clearDecorations\<close> leaves.
\<close>

definition untagged :: "element list \<Rightarrow> element list" where
  "untagged els = map (\<lambda>el. if isDecorated el then removeDecorationClasses el else el) els"

text \<open>\<open>clearDecorations\<close>\<close>

definition clearDecorations :: "state \<Rightarrow> state" where
  "clearDecorations s =
     (if \<not> vditor s then s
      else
        (case irContainer s of
           None \<Rightarrow> s
         | Some els \<Rightarrow>
             hideFloatingToolbar
               (s\<lparr>irContainer := Some (untagged els), previousMode := None\<rparr>)))"

text \<open>
  \<open>applyDecorationsToVditor\<close>, the part that runs at the call; \<open>decorations\<close> is
  \<open>None\<close> when the argument is \<open>null\<close> or \<open>undefined\<close>.
\<close>

definition applyDecorationsToVditor :: "decorations option \<Rightarrow> nat \<Rightarrow> state \<Rightarrow> state" where
  "applyDecorationsToVditor decorations retry s =
     (case decorations of
        None \<Rightarrow> s
      | Some d \<Rightarrow>
          if \<not> vditor s then s
          else
            let s1 = clearDecorations s;
                s2 = (if previousMode s1 = None
                      then s1\<lparr>previousMode :=
                                Some (case currentMode s1 of Some m \<Rightarrow> m | None \<Rightarrow> Ir)\<rparr>
                      else s1)
            in setTimeout (Deferred d retry) s2)"

text \<open>
  The three \<open>forEach\<close> loops at the end of the tagging pass: the added, the deleted
  and the modified lines, in this order.
\<close>

definition tagLines ::
  "jsstring list \<Rightarrow> (nat \<rightharpoonup> nat) \<Rightarrow> decorations \<Rightarrow> element list \<Rightarrow> error + element list" where
  "tagLines lines lineToElementMap d els =
     (case forEachLine
             (\<lambda>n. applyDecorationToLine lines lineToElementMap n ''cline-added-line'')
             (added d) els of
        Inl e \<Rightarrow> Inl e
      | Inr els1 \<Rightarrow>
          (case forEachLine
                  (\<lambda>n. applyDecorationToLine lines lineToElementMap n ''cline-deleted-line'')
                  (deleted d) els1 of
             Inl e \<Rightarrow> Inl e
           | Inr els2 \<Rightarrow>
               forEachLine
                 (\<lambda>n. applyDecorationToLine lines lineToElementMap n ''cline-modified-line'')
                 (modified d) els2))"

text \<open>
  The callback that \<open>applyDecorationsToVditor\<close> defers: the retry while the container
  or the editor is missing, else the tagging pass and the toolbar.
\<close>

definition deferredCallback :: "decorations \<Rightarrow> nat \<Rightarrow> state \<Rightarrow> error + state" where
  "deferredCallback d retry s =
     (case irContainer s of
        None \<Rightarrow> Inr (if retry < 5 then setTimeout (Retry d retry) s else s)
      | Some els \<Rightarrow>
          if \<not> vditor s then Inr (if retry < 5 then setTimeout (Retry d retry) s else s)
          else
            let lines = split nl (getValue s);
                touched = remdups (added d @ deleted d @ modified d);
                lineToElementMap = buildLineToElementMap els lines
            in
              (case tagLines lines lineToElementMap d els of
                 Inl e \<Rightarrow> Inl e
               | Inr els' \<Rightarrow>
                   (let s' = s\<lparr>irContainer := Some els'\<rparr>
                    in Inr (if length touched > 0 then showFloatingToolbar s' else s'))))"

section \<open>The event loop\<close>

text \<open>The oldest pending timeout fires; nothing happens when none is pending.\<close>

definition timeout :: "state \<Rightarrow> error + state" where
  "timeout s =
     (case timers s of
        [] \<Rightarrow> Inr s
      | t # ts \<Rightarrow>
          (case t of
             Deferred d retry \<Rightarrow> deferredCallback d retry (s\<lparr>timers := ts\<rparr>)
           | Retry d retry \<Rightarrow> Inr (applyDecorationsToVditor (Some d) (retry + 1) (s\<lparr>timers := ts\<rparr>))))"

text \<open>
  What can happen to the page: a call \<open>applyDecorationsToVditor(decorations)\<close>
  (\<open>retry\<close> is 0 by default), a call \<open>clearDecorations()\<close>, a timeout, the renderer
  building or dropping the tree below \<open>.vditor-ir\<close>, and the user switching the
  editing mode with the toolbar's \<open>edit-mode\<close> button.
\<close>

datatype event =
    Apply "decorations option"
  | Clear
  | Timeout
  | Render "element list option"
  | SwitchMode mode

fun step :: "event \<Rightarrow> state \<Rightarrow> error + state" where
  "step (Apply d) s = Inr (applyDecorationsToVditor d 0 s)"
| "step Clear s = Inr (clearDecorations s)"
| "step Timeout s = timeout s"
| "step (Render tree) s = Inr (s\<lparr>irContainer := tree\<rparr>)"
| "step (SwitchMode m) s = Inr (s\<lparr>currentMode := Some m\<rparr>)"

text \<open>A sequence of events; an uncaught exception ends the run.\<close>

fun run :: "event list \<Rightarrow> state \<Rightarrow> error + state" where
  "run [] s = Inr s"
| "run (e # es) s = (case step e s of Inl err \<Rightarrow> Inl err | Inr s' \<Rightarrow> run es s')"

section \<open>Example pages\<close>

text \<open>A \<open><p>\<close> directly below the container, with the given text and no class.\<close>

definition pElement :: "jsstring \<Rightarrow> element" where
  "pElement t = \<lparr>tagName = ''p'', classList = [], textContent = t, parentElement = None\<rparr>"

text \<open>A page whose editor holds the given markdown and has rendered the given tree.\<close>

definition rendered :: "jsstring \<Rightarrow> element list \<Rightarrow> state" where
  "rendered src els = (document src)\<lparr>irContainer := Some els\<rparr>"

text \<open>Two paragraphs, for the source \<open>"alpha\nbeta"\<close>.\<close>

definition twoParagraphs :: "element list" where
  "twoParagraphs = [pElement (str ''alpha''), pElement (str ''beta'')]"

text \<open>The change sets \<open>{added: [0]}\<close> and \<open>{modified: [1]}\<close>.\<close>

definition changeSetA :: decorations where
  "changeSetA = \<lparr>added = [0], deleted = [], modified = []\<rparr>"

definition changeSetB :: decorations where
  "changeSetB = \<lparr>added = [], deleted = [], modified = [1]\<rparr>"

text \<open>The lines of a change set that are lines of the source.\<close>

definition inRange :: "jsstring list \<Rightarrow> decorations \<Rightarrow> decorations" where
  "inRange lines d =
     \<lparr>added = filter (\<lambda>n. 0 \<le> n \<and> n < int (length lines)) (added d),
      deleted = filter (\<lambda>n. 0 \<le> n \<and> n < int (length lines)) (deleted d),
      modified = filter (\<lambda>n. 0 \<le> n \<and> n < int (length lines)) (modified d)\<rparr>"

section \<open>The Line Indexer: theorems\<close>

lemma split_not_Nil: "split sep s \<noteq> []"
  by (induction s) (auto split: list.splits)

lemma roundtrip_any_separator: "join sep (split sep T) = T"
proof (induction T)
  case Nil
  show ?case by simp
next
  case (Cons c cs)
  obtain l ls where sp: "split sep cs = l # ls"
    using split_not_Nil [of sep cs] by (cases "split sep cs") auto
  show ?case
  proof (cases "c = sep")
    case True
    with Cons sp show ?thesis by simp
  next
    case False
    with Cons sp show ?thesis by (cases ls) auto
  qed
qed

lemma split_no_sep: "seg \<in> set (split sep T) \<Longrightarrow> sep \<notin> set seg"
proof (induction T arbitrary: seg)
  case Nil
  then show ?case by simp
next
  case (Cons c cs)
  obtain l ls where sp: "split sep cs = l # ls"
    using split_not_Nil [of sep cs] by (cases "split sep cs") auto
  have l: "sep \<notin> set l" and ls: "\<And>x. x \<in> set ls \<Longrightarrow> sep \<notin> set x"
    using Cons.IH sp by auto
  show ?case
  proof (cases "c = sep")
    case True
    with Cons.prems sp l ls show ?thesis by auto
  next
    case False
    with Cons.prems sp l ls show ?thesis by auto
  qed
qed

lemma split_trailing: "split sep (T @ [sep]) = split sep T @ [[]]"
proof (induction T)
  case Nil
  show ?case by simp
next
  case (Cons c cs)
  obtain l ls where sp: "split sep cs = l # ls"
    using split_not_Nil [of sep cs] by (cases "split sep cs") auto
  with Cons show ?case by simp
qed

lemma length_split: "length (split sep T) = Suc (length (filter (\<lambda>c. c = sep) T))"
proof (induction T)
  case Nil
  show ?case by simp
next
  case (Cons c cs)
  obtain l ls where sp: "split sep cs = l # ls"
    using split_not_Nil [of sep cs] by (cases "split sep cs") auto
  with Cons show ?case by simp
qed

text \<open>
  C7: for every text \<open>T\<close>, joining \<open>split(T)\<close> with the newline separator gives
  \<open>T\<close> back, and \<open>split\<close> cuts strictly at the newlines: it returns at least one
  segment, no segment contains a newline, there is one segment more than there are
  newlines in \<open>T\<close>, and a text that ends in a newline keeps its trailing empty
  segment.
\<close>

theorem join_split:
  "join nl (split nl T) = T
   \<and> split nl T \<noteq> []
   \<and> (\<forall>seg \<in> set (split nl T). nl \<notin> set seg)
   \<and> length (split nl T) = Suc (length (filter (\<lambda>c. c = nl) T))
   \<and> split nl (T @ [nl]) = split nl T @ [[]]"
  using roundtrip_any_separator [of nl T] split_not_Nil [of nl T] split_no_sep [of _ nl T]
    length_split [of nl T] split_trailing [of nl T]
  by blast

theorem join_split_witness:
  "split nl (str ''a\<newline>b\<newline>'') = [str ''a'', str ''b'', []]
   \<and> join nl [str ''a'', str ''b'', []] = str ''a\<newline>b\<newline>''
   \<and> list_all (\<lambda>seg. nl \<notin> set seg) [str ''a'', str ''b'', []]
   \<and> length [str ''a'', str ''b'', []::jsstring]
       = Suc (length (filter (\<lambda>c. c = nl) (str ''a\<newline>b\<newline>'')))
   \<and> split nl (str ''a\<newline>b\<newline>'' @ [nl]) = [str ''a'', str ''b'', []] @ [[]]"
proof -
  have sp: "split nl (str ''a\<newline>b\<newline>'') = [str ''a'', str ''b'', []]" by code_simp
  from join_split [of "str ''a\<newline>b\<newline>''"]
  have "join nl (split nl (str ''a\<newline>b\<newline>'')) = str ''a\<newline>b\<newline>''"
    and "\<forall>seg \<in> set (split nl (str ''a\<newline>b\<newline>'')). nl \<notin> set seg"
    and "length (split nl (str ''a\<newline>b\<newline>''))
        = Suc (length (filter (\<lambda>c. c = nl) (str ''a\<newline>b\<newline>'')))"
    and "split nl (str ''a\<newline>b\<newline>'' @ [nl]) = split nl (str ''a\<newline>b\<newline>'') @ [[]]"
    by blast+
  then show ?thesis unfolding sp by (simp add: list_all_iff)
qed

section \<open>The Selection Resolver: theorems\<close>









lemma fallbackLoop_None:
  "(fallbackLoop ls i n f sel = None) = (\<forall>l \<in> set ls. \<not> includes_str l f)"
  by (induction ls arbitrary: i) (auto simp: Let_def)

lemma getSelectionLineRange_total: "\<exists>r. getSelectionLineRange s sel = Inr r"
proof -
  obtain first rest where "split nl sel = first # rest"
    using split_not_Nil [of nl sel] by (cases "split nl sel") auto
  then show ?thesis
    by (simp add: getSelectionLineRange_def Let_def split: prod.splits option.splits)
qed





text \<open>
  C5: a non-empty selection that none of the three tiers finds (no verbatim occurrence,
  no occurrence after whitespace normalisation, no line that includes the trimmed first
  line of the selection) gives the result \<open>null\<close>; \<open>getSelectionLineRange\<close> throws on
  no input at all; and document \<open>"abc"\<close> with selection \<open>"xyz"\<close> gives \<open>null\<close>.
\<close>

theorem no_match_is_null:
  "(vditor s \<and> selectedText \<noteq> []
      \<and> indexOf (getValue s) selectedText = -1
      \<and> indexOf (collapseWs (getValue s)) (trim (collapseWs selectedText)) = -1
      \<and> (\<forall>line \<in> set (split nl (getValue s)).
            \<not> includes_str line (trim (hd (split nl selectedText))))
     \<longrightarrow> getSelectionLineRange s selectedText = Inr None)
   \<and> (\<exists>r. getSelectionLineRange s selectedText = Inr r)
   \<and> getSelectionLineRange (document (str ''abc'')) (str ''xyz'') = Inr None"
proof (intro conjI impI)
  assume h: "vditor s \<and> selectedText \<noteq> []
      \<and> indexOf (getValue s) selectedText = -1
      \<and> indexOf (collapseWs (getValue s)) (trim (collapseWs selectedText)) = -1
      \<and> (\<forall>line \<in> set (split nl (getValue s)).
            \<not> includes_str line (trim (hd (split nl selectedText))))"
  obtain first rest where sp: "split nl selectedText = first # rest"
    using split_not_Nil [of nl selectedText] by (cases "split nl selectedText") auto
  with h have "fallbackLoop (split nl (getValue s)) 0 (int (length (split nl (getValue s))))
      (trim first) selectedText = None"
    by (simp add: fallbackLoop_None)
  with h sp show "getSelectionLineRange s selectedText = Inr None"
    by (simp add: getSelectionLineRange_def Let_def)
next
  show "\<exists>r. getSelectionLineRange s selectedText = Inr r"
    by (rule getSelectionLineRange_total)
next
  show "getSelectionLineRange (document (str ''abc'')) (str ''xyz'') = Inr None"
    by code_simp
qed

theorem no_match_is_null_witness:
  "vditor (document (str ''ab cd'')) \<and> str ''x y'' \<noteq> []
   \<and> indexOf (getValue (document (str ''ab cd''))) (str ''x y'') = -1
   \<and> indexOf (collapseWs (getValue (document (str ''ab cd'')))) (trim (collapseWs (str ''x y''))) = -1
   \<and> list_all (\<lambda>line. \<not> includes_str line (trim (hd (split nl (str ''x y'')))))
        (split nl (getValue (document (str ''ab cd''))))
   \<and> getSelectionLineRange (document (str ''ab cd'')) (str ''x y'') = Inr None"
proof -
  have h1: "vditor (document (str ''ab cd'')) \<and> str ''x y'' \<noteq> []" by code_simp
  have h2: "indexOf (getValue (document (str ''ab cd''))) (str ''x y'') = -1" by code_simp
  have h3: "indexOf (collapseWs (getValue (document (str ''ab cd''))))
      (trim (collapseWs (str ''x y''))) = -1" by code_simp
  have h4: "list_all (\<lambda>line. \<not> includes_str line (trim (hd (split nl (str ''x y'')))))
        (split nl (getValue (document (str ''ab cd''))))" by code_simp
  from h4 have h4': "\<forall>line \<in> set (split nl (getValue (document (str ''ab cd'')))).
      \<not> includes_str line (trim (hd (split nl (str ''x y''))))"
    by (simp add: list_all_iff)
  from no_match_is_null [of "document (str ''ab cd'')" "str ''x y''"] h1 h2 h3 h4'
  have "getSelectionLineRange (document (str ''ab cd'')) (str ''x y'') = Inr None"
    by blast
  with h1 h2 h3 h4 show ?thesis by blast
qed



section \<open>The Node Mapper and the Decoration Controller: lemmas\<close>


subsection \<open>The map only holds elements of the tree\<close>

lemma allBlockElements_bound: "el \<in> set (allBlockElements els) \<Longrightarrow> el < length els"
  by (simp add: allBlockElements_def)

lemma ran_upd_subset: "ran m \<subseteq> S \<Longrightarrow> el \<in> S \<Longrightarrow> ran (m(i \<mapsto> el)) \<subseteq> S"
  by (auto simp: ran_def)

lemma findExact_mem: "findExact els allBlocks used lineText = Some el \<Longrightarrow> el \<in> set allBlocks"
  by (induction allBlocks) (auto simp: Let_def split: if_splits)

lemma strategy1_ran:
  "strategy1 els allBlocks lines i (m, used) = (m', used') \<Longrightarrow> ran m \<subseteq> set allBlocks
   \<Longrightarrow> ran m' \<subseteq> set allBlocks"
proof (induction lines arbitrary: i m used)
  case Nil
  then show ?case by simp
next
  case (Cons line rest)
  show ?case
  proof (cases "trim line \<noteq> [] \<and> findExact els allBlocks used (trim line) \<noteq> None")
    case True
    then obtain el where f: "findExact els allBlocks used (trim line) = Some el" by auto
    have r: "ran (m(i \<mapsto> el)) \<subseteq> set allBlocks"
      using Cons.prems(2) findExact_mem [OF f] by (rule ran_upd_subset)
    have "strategy1 els allBlocks (line # rest) i (m, used)
        = strategy1 els allBlocks rest (i + 1) (m(i \<mapsto> el), insert el used)"
      using True f by simp
    with Cons.prems(1)
    have "strategy1 els allBlocks rest (i + 1) (m(i \<mapsto> el), insert el used) = (m', used')"
      by simp
    from Cons.IH [OF this r] show ?thesis .
  next
    case False
    then have "strategy1 els allBlocks (line # rest) i (m, used)
        = strategy1 els allBlocks rest (i + 1) (m, used)"
      by (auto split: option.splits)
    with Cons.prems(1) have "strategy1 els allBlocks rest (i + 1) (m, used) = (m', used')"
      by simp
    from Cons.IH [OF this Cons.prems(2)] show ?thesis .
  qed
qed

lemma findPositional_mem:
  "findPositional els rest i used lineText = Some (j, el) \<Longrightarrow> el \<in> set rest"
  by (induction rest arbitrary: i) (auto simp: Let_def split: if_splits)

lemma strategy2_ran:
  "strategy2 els allBlocks lines i (m, used, k) = (m', used', k') \<Longrightarrow> ran m \<subseteq> set allBlocks
   \<Longrightarrow> ran m' \<subseteq> set allBlocks"
proof (induction lines arbitrary: i m used k)
  case Nil
  then show ?case by simp
next
  case (Cons line rest)
  show ?case
  proof (cases "m i = None \<and> trim line \<noteq> [] \<and> k < length allBlocks
      \<and> findPositional els (drop k allBlocks) k used (trim line) \<noteq> None")
    case True
    then obtain j el where
      f: "findPositional els (drop k allBlocks) k used (trim line) = Some (j, el)" by auto
    have "el \<in> set allBlocks" using findPositional_mem [OF f] by (auto dest: in_set_dropD)
    with Cons.prems(2) have r: "ran (m(i \<mapsto> el)) \<subseteq> set allBlocks"
      by (rule ran_upd_subset)
    have "strategy2 els allBlocks (line # rest) i (m, used, k)
        = strategy2 els allBlocks rest (i + 1) (m(i \<mapsto> el), insert el used, j + 1)"
      using True f by simp
    with Cons.prems(1)
    have "strategy2 els allBlocks rest (i + 1) (m(i \<mapsto> el), insert el used, j + 1)
        = (m', used', k')"
      by simp
    from Cons.IH [OF this r] show ?thesis .
  next
    case False
    then have "strategy2 els allBlocks (line # rest) i (m, used, k)
        = strategy2 els allBlocks rest (i + 1) (m, used, k)"
      by (auto split: option.splits)
    with Cons.prems(1) have "strategy2 els allBlocks rest (i + 1) (m, used, k) = (m', used', k')"
      by simp
    from Cons.IH [OF this Cons.prems(2)] show ?thesis .
  qed
qed

lemma beforeElement_ran: "beforeElement m i = Some el \<Longrightarrow> el \<in> ran m"
  by (induction i) (auto simp: ran_def split: option.splits)

lemma afterElement_ran: "afterElement m is = Some el \<Longrightarrow> el \<in> ran m"
  by (induction "is") (auto simp: ran_def split: option.splits)

lemma strategy3_ran: "ran m \<subseteq> S \<Longrightarrow> ran (strategy3 n is m) \<subseteq> S"
proof (induction "is" arbitrary: m)
  case Nil
  then show ?case by simp
next
  case (Cons i rest)
  have upd: "ran (strategy3 n rest (m(i \<mapsto> el))) \<subseteq> S" if "el \<in> ran m" for el
  proof -
    from that Cons.prems have "el \<in> S" by auto
    with Cons.prems have "ran (m(i \<mapsto> el)) \<subseteq> S" by (rule ran_upd_subset)
    then show ?thesis by (rule Cons.IH)
  qed
  show ?case
  proof (cases "m i")
    case (Some a)
    then show ?thesis using Cons.IH [OF Cons.prems] by simp
  next
    case None
    show ?thesis
    proof (cases "beforeElement m i")
      case (Some el)
      then show ?thesis using None upd [OF beforeElement_ran [OF Some]] by simp
    next
      case b: None
      show ?thesis
      proof (cases "afterElement m [i + 1..<n]")
        case (Some el)
        then show ?thesis using None b upd [OF afterElement_ran [OF Some]] by simp
      next
        case a: None
        then show ?thesis using None b Cons.IH [OF Cons.prems] by simp
      qed
    qed
  qed
qed

lemma buildLineToElementMap_bound:
  assumes "buildLineToElementMap els lines i = Some el"
  shows "el < length els"
proof -
  obtain m1 used1 where s1: "strategy1 els (allBlockElements els) lines 0 (Map.empty, {}) = (m1, used1)"
    by (cases "strategy1 els (allBlockElements els) lines 0 (Map.empty, {})") auto
  obtain m2 used2 k where s2: "strategy2 els (allBlockElements els) lines 0 (m1, used1, 0) = (m2, used2, k)"
    by (cases "strategy2 els (allBlockElements els) lines 0 (m1, used1, 0)") auto
  have "ran m1 \<subseteq> set (allBlockElements els)" using strategy1_ran [OF s1] by simp
  then have "ran m2 \<subseteq> set (allBlockElements els)" using strategy2_ran [OF s2] by simp
  then have "ran (strategy3 (length lines) [0..<length lines] m2) \<subseteq> set (allBlockElements els)"
    by (rule strategy3_ran)
  moreover have "buildLineToElementMap els lines = strategy3 (length lines) [0..<length lines] m2"
    by (simp add: buildLineToElementMap_def Let_def s1 s2)
  ultimately have "el \<in> set (allBlockElements els)" using assms by (auto simp: ran_def)
  then show ?thesis by (rule allBlockElements_bound)
qed



subsection \<open>The tagging pass\<close>

lemma classList_addClass: "set (classList (addClass c e)) = insert c (set (classList e))"
  by (auto simp: addClass_def)

lemma applyDecorationToLine_out_of_range:
  "lineNum < 0 \<or> lineNum \<ge> int (length lines)
   \<Longrightarrow> applyDecorationToLine lines m lineNum cls els = Inr els"
  by (simp add: applyDecorationToLine_def)

lemma applyDecorationToLine_total:
  "\<exists>els'. applyDecorationToLine lines m lineNum cls els = Inr els'"
  by (auto simp: applyDecorationToLine_def Let_def split: option.splits)

lemma applyDecorationToLine_length:
  "applyDecorationToLine lines m lineNum cls els = Inr els' \<Longrightarrow> length els' = length els"
  by (auto simp: applyDecorationToLine_def Let_def split: option.splits if_splits)

lemma addClass_update_mono:
  "i < length els
   \<Longrightarrow> set (classList (els ! i)) \<subseteq> set (classList (els[j := addClass c (els ! j)] ! i))"
  by (cases "i = j") (auto simp: classList_addClass)

lemma addClass_update_tags:
  "j < length els \<Longrightarrow> c \<in> set (classList (els[j := addClass c (els ! j)] ! j))"
  by (simp add: classList_addClass)

lemma applyDecorationToLine_cases:
  assumes "applyDecorationToLine lines m lineNum cls els = Inr els'"
  shows "els' = els \<or> (\<exists>j. els' = els[j := addClass cls (els ! j)])
     \<or> (\<exists>j p. els' = (els[j := addClass cls (els ! j)])
                        [p := addClass cls (els[j := addClass cls (els ! j)] ! p)])"
  using assms
  by (simp add: applyDecorationToLine_def Let_def split: option.splits if_splits) blast+

lemma applyDecorationToLine_mono:
  assumes a: "applyDecorationToLine lines m lineNum cls els = Inr els'" and i: "i < length els"
  shows "set (classList (els ! i)) \<subseteq> set (classList (els' ! i))"
proof -
  have one: "set (classList (els ! i)) \<subseteq> set (classList (els[j := addClass cls (els ! j)] ! i))"
    for j using i by (rule addClass_update_mono)
  have two: "set (classList (els[j := addClass cls (els ! j)] ! i))
      \<subseteq> set (classList ((els[j := addClass cls (els ! j)])
                            [p := addClass cls (els[j := addClass cls (els ! j)] ! p)] ! i))"
    for j p using i by (intro addClass_update_mono) simp
  from applyDecorationToLine_cases [OF a] one two show ?thesis by blast
qed

lemma applyDecorationToLine_tags:
  assumes a: "applyDecorationToLine lines m lineNum cls els = Inr els'"
    and r: "0 \<le> lineNum" "lineNum < int (length lines)"
    and m: "m (nat lineNum) = Some el" and el: "el < length els"
  shows "cls \<in> set (classList (els' ! el))"
proof -
  define els1 where "els1 = els[el := addClass cls (els ! el)]"
  have t: "cls \<in> set (classList (els1 ! el))"
    unfolding els1_def using el by (rule addClass_update_tags)
  have len: "el < length els1" using el by (simp add: els1_def)
  have up: "cls \<in> set (classList (els1[p := addClass cls (els1 ! p)] ! el))" for p
    using addClass_update_mono [OF len, of p cls] t by blast
  from a r m have "els' = els1 \<or> (\<exists>p. els' = els1[p := addClass cls (els1 ! p)])"
    by (auto simp add: applyDecorationToLine_def Let_def els1_def [symmetric]
        split: option.splits if_splits)
  with t up show ?thesis by blast
qed

lemma forEachLine_total:
  "\<exists>els'. forEachLine (\<lambda>n. applyDecorationToLine lines m n cls) ns els = Inr els'"
proof (induction ns arbitrary: els)
  case Nil
  show ?case by simp
next
  case (Cons n ns)
  obtain els1 where "applyDecorationToLine lines m n cls els = Inr els1"
    using applyDecorationToLine_total by blast
  with Cons [of els1] show ?case by simp
qed

lemma forEachLine_length:
  "forEachLine (\<lambda>n. applyDecorationToLine lines m n cls) ns els = Inr els'
   \<Longrightarrow> length els' = length els"
proof (induction ns arbitrary: els)
  case Nil
  then show ?case by simp
next
  case (Cons n ns)
  obtain els1 where a: "applyDecorationToLine lines m n cls els = Inr els1"
    using applyDecorationToLine_total by blast
  with Cons.prems have "forEachLine (\<lambda>n. applyDecorationToLine lines m n cls) ns els1 = Inr els'"
    by simp
  from Cons.IH [OF this] applyDecorationToLine_length [OF a] show ?case by simp
qed

lemma forEachLine_mono:
  "forEachLine (\<lambda>n. applyDecorationToLine lines m n cls) ns els = Inr els' \<Longrightarrow> i < length els
   \<Longrightarrow> set (classList (els ! i)) \<subseteq> set (classList (els' ! i))"
proof (induction ns arbitrary: els)
  case Nil
  then show ?case by simp
next
  case (Cons n ns)
  obtain els1 where a: "applyDecorationToLine lines m n cls els = Inr els1"
    using applyDecorationToLine_total by blast
  with Cons.prems have r: "forEachLine (\<lambda>n. applyDecorationToLine lines m n cls) ns els1 = Inr els'"
    by simp
  have "i < length els1" using applyDecorationToLine_length [OF a] Cons.prems(2) by simp
  from Cons.IH [OF r this] applyDecorationToLine_mono [OF a Cons.prems(2)] show ?case by blast
qed

lemma forEachLine_tags:
  "forEachLine (\<lambda>n. applyDecorationToLine lines m n cls) ns els = Inr els' \<Longrightarrow> n \<in> set ns
   \<Longrightarrow> 0 \<le> n \<Longrightarrow> n < int (length lines) \<Longrightarrow> m (nat n) = Some el \<Longrightarrow> el < length els
   \<Longrightarrow> cls \<in> set (classList (els' ! el))"
proof (induction ns arbitrary: els)
  case Nil
  then show ?case by simp
next
  case (Cons k ns)
  obtain els1 where a: "applyDecorationToLine lines m k cls els = Inr els1"
    using applyDecorationToLine_total by blast
  with Cons.prems have r: "forEachLine (\<lambda>n. applyDecorationToLine lines m n cls) ns els1 = Inr els'"
    by simp
  have len: "el < length els1" using applyDecorationToLine_length [OF a] Cons.prems(6) by simp
  show ?case
  proof (cases "n = k")
    case True
    with a Cons.prems have "cls \<in> set (classList (els1 ! el))"
      by (auto intro: applyDecorationToLine_tags)
    with forEachLine_mono [OF r len] show ?thesis by blast
  next
    case False
    with Cons.prems(2) have "n \<in> set ns" by simp
    from Cons.IH [OF r this Cons.prems(3,4,5) len] show ?thesis .
  qed
qed

lemma forEachLine_skips:
  "forEachLine (\<lambda>n. applyDecorationToLine lines m n cls) ns els
   = forEachLine (\<lambda>n. applyDecorationToLine lines m n cls)
       (filter (\<lambda>n. 0 \<le> n \<and> n < int (length lines)) ns) els"
proof (induction ns arbitrary: els)
  case Nil
  show ?case by simp
next
  case (Cons n ns)
  show ?case
  proof (cases "0 \<le> n \<and> n < int (length lines)")
    case True
    with Cons show ?thesis by (simp split: sum.splits)
  next
    case False
    then have "applyDecorationToLine lines m n cls els = Inr els"
      by (intro applyDecorationToLine_out_of_range) auto
    with False Cons show ?thesis by simp
  qed
qed

lemma tagLines_total: "\<exists>els'. tagLines lines m d els = Inr els'"
proof -
  obtain els1 where a: "forEachLine (\<lambda>n. applyDecorationToLine lines m n ''cline-added-line'')
      (added d) els = Inr els1" using forEachLine_total by blast
  obtain els2 where b: "forEachLine (\<lambda>n. applyDecorationToLine lines m n ''cline-deleted-line'')
      (deleted d) els1 = Inr els2" using forEachLine_total by blast
  obtain els3 where c: "forEachLine (\<lambda>n. applyDecorationToLine lines m n ''cline-modified-line'')
      (modified d) els2 = Inr els3" using forEachLine_total by blast
  from a b c show ?thesis by (simp add: tagLines_def)
qed

lemma tagLines_props:
  assumes t: "tagLines lines m d els = Inr els'"
  shows "length els' = length els"
    and "n \<in> set (added d) \<Longrightarrow> 0 \<le> n \<Longrightarrow> n < int (length lines) \<Longrightarrow> m (nat n) = Some el
         \<Longrightarrow> el < length els \<Longrightarrow> ''cline-added-line'' \<in> set (classList (els' ! el))"
    and "n \<in> set (deleted d) \<Longrightarrow> 0 \<le> n \<Longrightarrow> n < int (length lines) \<Longrightarrow> m (nat n) = Some el
         \<Longrightarrow> el < length els \<Longrightarrow> ''cline-deleted-line'' \<in> set (classList (els' ! el))"
    and "n \<in> set (modified d) \<Longrightarrow> 0 \<le> n \<Longrightarrow> n < int (length lines) \<Longrightarrow> m (nat n) = Some el
         \<Longrightarrow> el < length els \<Longrightarrow> ''cline-modified-line'' \<in> set (classList (els' ! el))"
proof -
  obtain els1 where a: "forEachLine (\<lambda>n. applyDecorationToLine lines m n ''cline-added-line'')
      (added d) els = Inr els1" using forEachLine_total by blast
  obtain els2 where b: "forEachLine (\<lambda>n. applyDecorationToLine lines m n ''cline-deleted-line'')
      (deleted d) els1 = Inr els2" using forEachLine_total by blast
  from t a b have c: "forEachLine (\<lambda>n. applyDecorationToLine lines m n ''cline-modified-line'')
      (modified d) els2 = Inr els'" by (simp add: tagLines_def)
  have l1: "length els1 = length els" by (rule forEachLine_length [OF a])
  have l2: "length els2 = length els1" by (rule forEachLine_length [OF b])
  have l3: "length els' = length els2" by (rule forEachLine_length [OF c])
  show "length els' = length els" using l1 l2 l3 by simp
  {
    assume h: "n \<in> set (added d)" "0 \<le> n" "n < int (length lines)" "m (nat n) = Some el"
      "el < length els"
    have "''cline-added-line'' \<in> set (classList (els1 ! el))"
      by (rule forEachLine_tags [OF a h])
    moreover have "set (classList (els1 ! el)) \<subseteq> set (classList (els2 ! el))"
      using forEachLine_mono [OF b] h(5) l1 by simp
    moreover have "set (classList (els2 ! el)) \<subseteq> set (classList (els' ! el))"
      using forEachLine_mono [OF c] h(5) l1 l2 by simp
    ultimately show "''cline-added-line'' \<in> set (classList (els' ! el))" by blast
  }
  {
    assume h: "n \<in> set (deleted d)" "0 \<le> n" "n < int (length lines)" "m (nat n) = Some el"
      "el < length els"
    have h5: "el < length els1" using h(5) l1 by simp
    have "''cline-deleted-line'' \<in> set (classList (els2 ! el))"
      by (rule forEachLine_tags [OF b h(1,2,3,4) h5])
    moreover have "set (classList (els2 ! el)) \<subseteq> set (classList (els' ! el))"
      using forEachLine_mono [OF c] h(5) l1 l2 by simp
    ultimately show "''cline-deleted-line'' \<in> set (classList (els' ! el))" by blast
  }
  {
    assume h: "n \<in> set (modified d)" "0 \<le> n" "n < int (length lines)" "m (nat n) = Some el"
      "el < length els"
    have h5: "el < length els2" using h(5) l1 l2 by simp
    show "''cline-modified-line'' \<in> set (classList (els' ! el))"
      by (rule forEachLine_tags [OF c h(1,2,3,4) h5])
  }
qed

lemma tagLines_skips:
  "tagLines lines m d els
   = tagLines lines m
       \<lparr>added = filter (\<lambda>n. 0 \<le> n \<and> n < int (length lines)) (added d),
        deleted = filter (\<lambda>n. 0 \<le> n \<and> n < int (length lines)) (deleted d),
        modified = filter (\<lambda>n. 0 \<le> n \<and> n < int (length lines)) (modified d)\<rparr> els"
  unfolding tagLines_def
  using forEachLine_skips [of lines m "''cline-added-line''"]
    forEachLine_skips [of lines m "''cline-deleted-line''"]
    forEachLine_skips [of lines m "''cline-modified-line''"]
  by (simp split: sum.splits)



subsection \<open>Clearing\<close>

lemma not_isDecorated_removeDecorationClasses: "\<not> isDecorated (removeDecorationClasses el)"
  by (auto simp: isDecorated_def removeDecorationClasses_def)

lemma untagged_clean: "el \<in> set (untagged els) \<Longrightarrow> \<not> isDecorated el"
  by (auto simp: untagged_def not_isDecorated_removeDecorationClasses)

lemma untagged_id: "(\<forall>el \<in> set els. \<not> isDecorated el) \<Longrightarrow> untagged els = els"
  by (simp add: untagged_def map_idI)

lemma untagged_idem: "untagged (untagged els) = untagged els"
  by (rule untagged_id) (simp add: untagged_clean)

lemma clearDecorations_present:
  "vditor s \<Longrightarrow> irContainer s = Some els \<Longrightarrow>
   clearDecorations s = s\<lparr>irContainer := Some (untagged els), previousMode := None,
     toolbar := map_option (\<lambda>v. False) (toolbar s)\<rparr>"
  by (cases "toolbar s") (simp_all add: clearDecorations_def hideFloatingToolbar_def)

lemma clearDecorations_absent: "\<not> vditor s \<or> irContainer s = None \<Longrightarrow> clearDecorations s = s"
  by (auto simp: clearDecorations_def)

lemma clearDecorations_clear:
  assumes "\<forall>el \<in> set (case irContainer s of Some els \<Rightarrow> els | None \<Rightarrow> []). \<not> isDecorated el"
    and "previousMode s = None" and "toolbar s \<noteq> Some True"
  shows "clearDecorations s = s"
proof (cases "vditor s \<and> irContainer s \<noteq> None")
  case True
  then obtain els where e: "vditor s" "irContainer s = Some els" by auto
  with assms(1) have u: "untagged els = els" by (simp add: untagged_id)
  have t: "map_option (\<lambda>v. False) (toolbar s) = toolbar s"
    using assms(3) by (cases "toolbar s") auto
  have "s\<lparr>irContainer := Some els, previousMode := None, toolbar := toolbar s\<rparr> = s"
    using e(2) assms(2) by (cases s) simp
  then show ?thesis by (simp add: clearDecorations_present [OF e] u t)
next
  case False
  then show ?thesis by (simp add: clearDecorations_absent)
qed

lemma clearDecorations_twice: "clearDecorations (clearDecorations s) = clearDecorations s"
proof (cases "vditor s \<and> irContainer s \<noteq> None")
  case True
  then obtain els where e: "vditor s" "irContainer s = Some els" by auto
  have c: "clearDecorations s = s\<lparr>irContainer := Some (untagged els), previousMode := None,
     toolbar := map_option (\<lambda>v. False) (toolbar s)\<rparr>"
    by (rule clearDecorations_present [OF e])
  show ?thesis
  proof (rule clearDecorations_clear)
    show "\<forall>el \<in> set (case irContainer (clearDecorations s) of Some els \<Rightarrow> els | None \<Rightarrow> []).
        \<not> isDecorated el"
      by (simp add: c untagged_clean)
    show "previousMode (clearDecorations s) = None" by (simp add: c)
    show "toolbar (clearDecorations s) \<noteq> Some True" by (cases "toolbar s") (simp_all add: c)
  qed
next
  case False
  then show ?thesis by (simp add: clearDecorations_absent)
qed

subsection \<open>The call and the deferred pass\<close>

lemma applyDecorationsToVditor_present:
  "vditor s \<Longrightarrow> irContainer s = Some els \<Longrightarrow>
   applyDecorationsToVditor (Some d) r s
   = s\<lparr>irContainer := Some (untagged els),
        previousMode := Some (case currentMode s of Some m \<Rightarrow> m | None \<Rightarrow> Ir),
        toolbar := map_option (\<lambda>v. False) (toolbar s),
        timers := timers s @ [Deferred d r]\<rparr>"
  by (simp add: applyDecorationsToVditor_def clearDecorations_present setTimeout_def Let_def)

lemma deferredCallback_present:
  assumes "vditor s" and "irContainer s = Some els"
  shows "\<exists>els'. tagLines (split nl (getValue s))
             (buildLineToElementMap els (split nl (getValue s))) d els = Inr els'
      \<and> deferredCallback d r s
        = Inr (if added d @ deleted d @ modified d \<noteq> []
               then showFloatingToolbar (s\<lparr>irContainer := Some els'\<rparr>)
               else s\<lparr>irContainer := Some els'\<rparr>)"
proof -
  obtain els' where t: "tagLines (split nl (getValue s))
      (buildLineToElementMap els (split nl (getValue s))) d els = Inr els'"
    using tagLines_total by blast
  have "(0 < length (remdups (added d @ deleted d @ modified d)))
      = (added d @ deleted d @ modified d \<noteq> [])"
    by (metis length_greater_0_conv remdups_eq_nil_iff)
  with assms t show ?thesis
    by (simp add: deferredCallback_def Let_def)
qed


lemma applyDecorationsToVditor_no_tree:
  "vditor s \<Longrightarrow> irContainer s = None \<Longrightarrow>
   irContainer (applyDecorationsToVditor (Some d) r s) = None
   \<and> toolbar (applyDecorationsToVditor (Some d) r s) = toolbar s
   \<and> timers (applyDecorationsToVditor (Some d) r s) = timers s @ [Deferred d r]"
  by (simp add: applyDecorationsToVditor_def clearDecorations_def setTimeout_def Let_def)

lemma applyDecorationsToVditor_timers:
  "vditor s \<Longrightarrow> timers (applyDecorationsToVditor (Some d) r s) = timers s @ [Deferred d r]"
  by (cases "irContainer s")
    (simp_all add: applyDecorationsToVditor_no_tree applyDecorationsToVditor_present)

lemma applyDecorationsToVditor_saves:
  "vditor s \<Longrightarrow> previousMode s = None \<Longrightarrow>
   previousMode (applyDecorationsToVditor (Some d) r s)
   = Some (case currentMode s of Some m \<Rightarrow> m | None \<Rightarrow> Ir)"
proof (cases "irContainer s")
  case None
  assume "vditor s" "previousMode s = None"
  with None show ?thesis
    by (simp add: applyDecorationsToVditor_def clearDecorations_def setTimeout_def Let_def)
next
  case (Some els)
  assume "vditor s" "previousMode s = None"
  with Some show ?thesis by (simp add: applyDecorationsToVditor_present)
qed

lemma deferredCallback_missing:
  "\<not> vditor s \<or> irContainer s = None \<Longrightarrow>
   deferredCallback d r s = Inr (if r < 5 then setTimeout (Retry d r) s else s)"
  by (auto simp: deferredCallback_def split: option.splits)

section \<open>The Decoration Controller and the Mode Guard: theorems\<close>

text \<open>
  C8: \<open>clearDecorations\<close> twice in a row leaves the state (tags, saved mode, toolbar and
  all the rest) that one call leaves; and on a state that is already clear (no element
  carries a decoration class, no mode is saved, the toolbar is not visible) it changes
  nothing.
\<close>

theorem clear_idempotent:
  "clearDecorations (clearDecorations s) = clearDecorations s
   \<and> ((\<forall>el \<in> set (case irContainer s of Some els \<Rightarrow> els | None \<Rightarrow> []). \<not> isDecorated el)
        \<and> previousMode s = None \<and> toolbar s \<noteq> Some True
      \<longrightarrow> clearDecorations s = s)"
  using clearDecorations_twice [of s] clearDecorations_clear [of s] by blast

theorem clear_idempotent_witness:
  "list_all (\<lambda>el. \<not> isDecorated el)
     (case irContainer (rendered (str ''alpha'') [pElement (str ''alpha'')]) of
        Some els \<Rightarrow> els | None \<Rightarrow> [])
   \<and> previousMode (rendered (str ''alpha'') [pElement (str ''alpha'')]) = None
   \<and> toolbar (rendered (str ''alpha'') [pElement (str ''alpha'')]) \<noteq> Some True
   \<and> clearDecorations (rendered (str ''alpha'') [pElement (str ''alpha'')])
       = rendered (str ''alpha'') [pElement (str ''alpha'')]
   \<and> clearDecorations (clearDecorations
         ((rendered (str ''alpha'') [(pElement (str ''alpha''))\<lparr>classList := [''cline-added-line'']\<rparr>])
            \<lparr>previousMode := Some Ir, toolbar := Some True\<rparr>))
       = (rendered (str ''alpha'') [pElement (str ''alpha'')])\<lparr>toolbar := Some False\<rparr>"
proof -
  let ?s = "rendered (str ''alpha'') [pElement (str ''alpha'')]"
  let ?t = "(rendered (str ''alpha'') [(pElement (str ''alpha''))\<lparr>classList := [''cline-added-line'']\<rparr>])
            \<lparr>previousMode := Some Ir, toolbar := Some True\<rparr>"
  have h1: "list_all (\<lambda>el. \<not> isDecorated el)
     (case irContainer ?s of Some els \<Rightarrow> els | None \<Rightarrow> [])"
    by (simp add: rendered_def document_def pElement_def isDecorated_def)
  have h2: "previousMode ?s = None" by (simp add: rendered_def document_def)
  have h3: "toolbar ?s \<noteq> Some True" by (simp add: rendered_def document_def)
  from h1 have h1': "\<forall>el \<in> set (case irContainer ?s of Some els \<Rightarrow> els | None \<Rightarrow> []).
      \<not> isDecorated el"
    by (simp add: list_all_iff)
  have a: "clearDecorations ?s = ?s"
    using clear_idempotent [of ?s] h1' h2 h3 by blast
  have once: "clearDecorations ?t = ?s\<lparr>toolbar := Some False\<rparr>"
    by (simp add: clearDecorations_def hideFloatingToolbar_def rendered_def document_def
        pElement_def untagged_def isDecorated_def removeDecorationClasses_def
        decorationClasses_def)
  have "clearDecorations (clearDecorations ?t) = clearDecorations ?t"
    using clear_idempotent [of ?t] by blast
  with once have b: "clearDecorations (clearDecorations ?t) = ?s\<lparr>toolbar := Some False\<rparr>"
    by simp
  from h1 h2 h3 a b show ?thesis by blast
qed

text \<open>
  C10: \<open>clearDecorations\<close> called while \<open>window.vditor\<close> is not set, or while there is
  no \<open>.vditor-ir\<close> element, returns at once: the state is what it was (the tags, the
  saved mode and the toolbar included).
\<close>

theorem clear_returns_early:
  "\<not> vditor s \<or> irContainer s = None \<longrightarrow> clearDecorations s = s"
  by (auto simp: clearDecorations_def)

theorem clear_returns_early_witness:
  "\<not> vditor ((rendered (str ''alpha'') [(pElement (str ''alpha''))\<lparr>classList := [''cline-added-line'']\<rparr>])
        \<lparr>vditor := False, previousMode := Some Sv, toolbar := Some True\<rparr>)
   \<and> clearDecorations
        ((rendered (str ''alpha'') [(pElement (str ''alpha''))\<lparr>classList := [''cline-added-line'']\<rparr>])
           \<lparr>vditor := False, previousMode := Some Sv, toolbar := Some True\<rparr>)
       = (rendered (str ''alpha'') [(pElement (str ''alpha''))\<lparr>classList := [''cline-added-line'']\<rparr>])
           \<lparr>vditor := False, previousMode := Some Sv, toolbar := Some True\<rparr>
   \<and> irContainer ((document (str ''alpha''))\<lparr>previousMode := Some Sv, toolbar := Some True\<rparr>) = None
   \<and> clearDecorations ((document (str ''alpha''))\<lparr>previousMode := Some Sv, toolbar := Some True\<rparr>)
       = (document (str ''alpha''))\<lparr>previousMode := Some Sv, toolbar := Some True\<rparr>"
proof -
  let ?s = "(rendered (str ''alpha'') [(pElement (str ''alpha''))\<lparr>classList := [''cline-added-line'']\<rparr>])
        \<lparr>vditor := False, previousMode := Some Sv, toolbar := Some True\<rparr>"
  let ?t = "(document (str ''alpha''))\<lparr>previousMode := Some Sv, toolbar := Some True\<rparr>"
  have h1: "\<not> vditor ?s" by simp
  have h2: "irContainer ?t = None" by (simp add: document_def)
  from clear_returns_early [of ?s] h1 have a: "clearDecorations ?s = ?s" by blast
  from clear_returns_early [of ?t] h2 have b: "clearDecorations ?t = ?t" by blast
  from h1 h2 a b show ?thesis by blast
qed


text \<open>
  C9: \<open>applyDecorationToLine\<close> returns at once, with the tree as it was and without an
  exception, for a line index that is negative or not less than the number of source
  lines. So with the tree present the tagging pass throws for no change set, and it
  leaves the tree that it leaves for the in-range indices alone; when every index is
  out of range this is the tree as it was.
\<close>

theorem out_of_range_lines_skipped:
  "(lineNum < 0 \<or> int (length lines) \<le> lineNum
      \<longrightarrow> applyDecorationToLine lines m lineNum cls els = Inr els)
   \<and> (vditor s \<and> irContainer s = Some els \<longrightarrow>
        (\<exists>s' els'. deferredCallback d r s = Inr s' \<and> irContainer s' = Some els'
           \<and> tagLines (split nl (getValue s))
                (buildLineToElementMap els (split nl (getValue s)))
                (inRange (split nl (getValue s)) d) els = Inr els'
           \<and> ((\<forall>n \<in> set (added d @ deleted d @ modified d).
                   n < 0 \<or> int (length (split nl (getValue s))) \<le> n)
                \<longrightarrow> els' = els)))"
proof (intro conjI impI)
  assume "lineNum < 0 \<or> int (length lines) \<le> lineNum"
  then show "applyDecorationToLine lines m lineNum cls els = Inr els"
    by (rule applyDecorationToLine_out_of_range)
next
  assume h: "vditor s \<and> irContainer s = Some els"
  define lines where "lines = split nl (getValue s)"
  define m where "m = buildLineToElementMap els lines"
  from h deferredCallback_present [of s els d r] obtain els' where
    t: "tagLines lines m d els = Inr els'"
    and c: "deferredCallback d r s
        = Inr (if added d @ deleted d @ modified d \<noteq> []
               then showFloatingToolbar (s\<lparr>irContainer := Some els'\<rparr>)
               else s\<lparr>irContainer := Some els'\<rparr>)"
    unfolding lines_def m_def by blast
  define s' where "s' = (if added d @ deleted d @ modified d \<noteq> []
               then showFloatingToolbar (s\<lparr>irContainer := Some els'\<rparr>)
               else s\<lparr>irContainer := Some els'\<rparr>)"
  have i: "irContainer s' = Some els'" by (simp add: s'_def showFloatingToolbar_def)
  have k: "tagLines lines m (inRange lines d) els = Inr els'"
    using t tagLines_skips [of lines m d els] by (simp add: inRange_def)
  have e: "els' = els"
    if all: "\<forall>n \<in> set (added d @ deleted d @ modified d). n < 0 \<or> int (length lines) \<le> n"
  proof -
    have out: "\<not> (0 \<le> n \<and> n < int (length lines))"
      if n: "n \<in> set (added d) \<union> set (deleted d) \<union> set (modified d)" for n
    proof -
      from n all have "n < 0 \<or> int (length lines) \<le> n" by auto
      then show ?thesis by linarith
    qed
    have "filter (\<lambda>n. 0 \<le> n \<and> n < int (length lines)) (added d) = []"
      "filter (\<lambda>n. 0 \<le> n \<and> n < int (length lines)) (deleted d) = []"
      "filter (\<lambda>n. 0 \<le> n \<and> n < int (length lines)) (modified d) = []"
      using out by (simp_all add: filter_empty_conv)
    then have "inRange lines d = \<lparr>added = [], deleted = [], modified = []\<rparr>"
      by (simp add: inRange_def)
    with k show ?thesis by (simp add: tagLines_def)
  qed
  from c i k e show "\<exists>s' els'. deferredCallback d r s = Inr s' \<and> irContainer s' = Some els'
           \<and> tagLines (split nl (getValue s))
                (buildLineToElementMap els (split nl (getValue s)))
                (inRange (split nl (getValue s)) d) els = Inr els'
           \<and> ((\<forall>n \<in> set (added d @ deleted d @ modified d).
                   n < 0 \<or> int (length (split nl (getValue s))) \<le> n)
                \<longrightarrow> els' = els)"
    unfolding s'_def [symmetric] lines_def [symmetric] m_def [symmetric] by blast
qed

theorem out_of_range_lines_skipped_witness:
  "vditor (rendered (str ''alpha\<newline>beta'') [pElement (str ''alpha''), pElement (str ''beta'')])
   \<and> irContainer (rendered (str ''alpha\<newline>beta'') [pElement (str ''alpha''), pElement (str ''beta'')])
       = Some [pElement (str ''alpha''), pElement (str ''beta'')]
   \<and> list_all (\<lambda>n. n < 0 \<or> int (length (split nl (getValue
          (rendered (str ''alpha\<newline>beta'') [pElement (str ''alpha''), pElement (str ''beta'')])))) \<le> n)
        (added \<lparr>added = [-1, 2], deleted = [7], modified = [-3]\<rparr>
          @ deleted \<lparr>added = [-1, 2], deleted = [7], modified = [-3]\<rparr>
          @ modified \<lparr>added = [-1, 2], deleted = [7], modified = [-3]\<rparr>)
   \<and> (\<exists>s'. deferredCallback \<lparr>added = [-1, 2], deleted = [7], modified = [-3]\<rparr> 0
              (rendered (str ''alpha\<newline>beta'') [pElement (str ''alpha''), pElement (str ''beta'')])
            = Inr s'
          \<and> irContainer s' = Some [pElement (str ''alpha''), pElement (str ''beta'')])
   \<and> applyDecorationToLine (split nl (str ''alpha\<newline>beta'')) Map.empty 2 ''cline-added-line''
        [pElement (str ''alpha''), pElement (str ''beta'')]
       = Inr [pElement (str ''alpha''), pElement (str ''beta'')]"
proof -
  let ?els = "[pElement (str ''alpha''), pElement (str ''beta'')]"
  let ?s = "rendered (str ''alpha\<newline>beta'') ?els"
  let ?d = "\<lparr>added = [-1, 2], deleted = [7], modified = [-3]\<rparr>"
  have h1: "vditor ?s" by (simp add: rendered_def document_def)
  have h2: "irContainer ?s = Some ?els" by (simp add: rendered_def)
  have len: "int (length (split nl (getValue ?s))) = 2" by code_simp
  have h3: "list_all (\<lambda>n. n < 0 \<or> int (length (split nl (getValue ?s))) \<le> n)
      (added ?d @ deleted ?d @ modified ?d)"
    unfolding len by simp
  then have h3': "\<forall>n \<in> set (added ?d @ deleted ?d @ modified ?d).
      n < 0 \<or> int (length (split nl (getValue ?s))) \<le> n"
    unfolding list_all_iff .
  from out_of_range_lines_skipped [of _ _ _ _ ?els ?s ?d 0] h1 h2 h3'
  have a: "\<exists>s'. deferredCallback ?d 0 ?s = Inr s' \<and> irContainer s' = Some ?els"
    by blast
  have len2: "int (length (split nl (str ''alpha\<newline>beta''))) = 2" by code_simp
  have "applyDecorationToLine (split nl (str ''alpha\<newline>beta'')) Map.empty 2 ''cline-added-line''
      ?els = Inr ?els"
    using out_of_range_lines_skipped [of 2 "split nl (str ''alpha\<newline>beta'')" Map.empty
        "''cline-added-line''" ?els] len2
    by simp
  with h1 h2 h3 a show ?thesis by blast
qed

text \<open>
  C4, as the code has it: with the tree present the deferred pass ends with the toolbar
  visible exactly when the change set names at least one line index (in \<open>added\<close>,
  \<open>deleted\<close> or \<open>modified\<close>), whether or not an element was tagged for it; for an
  empty change set the pass leaves the toolbar as it finds it.
\<close>

theorem toolbar_follows_change_set:
  "vditor s \<and> irContainer s = Some els \<longrightarrow>
     (\<exists>s'. deferredCallback d r s = Inr s'
        \<and> toolbar s' = (if added d @ deleted d @ modified d \<noteq> [] then Some True
                        else toolbar s))"
proof
  assume h: "vditor s \<and> irContainer s = Some els"
  from h deferredCallback_present [of s els d r] obtain els' where
    c: "deferredCallback d r s
        = Inr (if added d @ deleted d @ modified d \<noteq> []
               then showFloatingToolbar (s\<lparr>irContainer := Some els'\<rparr>)
               else s\<lparr>irContainer := Some els'\<rparr>)"
    by blast
  show "\<exists>s'. deferredCallback d r s = Inr s'
        \<and> toolbar s' = (if added d @ deleted d @ modified d \<noteq> [] then Some True
                        else toolbar s)"
    unfolding c by (simp add: showFloatingToolbar_def)
qed

theorem toolbar_follows_change_set_witness:
  "vditor (rendered (str ''alpha\<newline>beta'') [pElement (str ''alpha''), pElement (str ''beta'')])
   \<and> irContainer (rendered (str ''alpha\<newline>beta'') [pElement (str ''alpha''), pElement (str ''beta'')])
       = Some [pElement (str ''alpha''), pElement (str ''beta'')]
   \<and> (\<exists>s'. deferredCallback \<lparr>added = [], deleted = [], modified = [1]\<rparr> 0
              (rendered (str ''alpha\<newline>beta'') [pElement (str ''alpha''), pElement (str ''beta'')])
            = Inr s'
          \<and> toolbar s' = Some True)"
proof -
  let ?els = "[pElement (str ''alpha''), pElement (str ''beta'')]"
  let ?s = "rendered (str ''alpha\<newline>beta'') ?els"
  let ?d = "\<lparr>added = [], deleted = [], modified = [1]\<rparr>"
  have h1: "vditor ?s" by (simp add: rendered_def document_def)
  have h2: "irContainer ?s = Some ?els" by (simp add: rendered_def)
  from toolbar_follows_change_set [of ?s ?els ?d 0] h1 h2
  have "\<exists>s'. deferredCallback ?d 0 ?s = Inr s' \<and> toolbar s' = Some True"
    by simp
  with h1 h2 show ?thesis by blast
qed

text \<open>
  The claim C4 as the specification states it fails: the change set \<open>{added: [7]}\<close> on a
  one-line document tags no element (the tree is as it was), and the toolbar is made
  visible all the same.
\<close>

theorem toolbar_shown_without_tag:
  "run [Apply (Some \<lparr>added = [7], deleted = [], modified = []\<rparr>), Timeout]
     (rendered (str ''alpha'') [pElement (str ''alpha'')])
   = Inr ((rendered (str ''alpha'') [pElement (str ''alpha'')])
            \<lparr>previousMode := Some Ir, toolbar := Some True\<rparr>)"
  by code_simp


text \<open>
  C3, as the code has it. For a change set whose three lists are empty, the deferred
  pass tags no element and does not show the toolbar: on every state it leaves the tree
  and the toolbar as they were, and with the editor and the tree present it leaves the
  whole state as it was. The call itself is a no-op exactly when the editor is missing.
  With the editor present it always sets the timeout, and it saves the current mode
  when no mode is saved; with the tree present it first removes the decoration classes
  and hides the toolbar, with the tree missing it leaves tree and toolbar as they are.
  With the editor and the tree present, call and pass together leave the tree without
  decoration classes and the toolbar hidden.
\<close>

theorem empty_apply:
  "added d = [] \<and> deleted d = [] \<and> modified d = [] \<longrightarrow>
     (\<exists>s'. deferredCallback d r s = Inr s' \<and> irContainer s' = irContainer s
         \<and> toolbar s' = toolbar s)
     \<and> (vditor s \<and> irContainer s = Some els \<longrightarrow> deferredCallback d r s = Inr s)
     \<and> (\<not> vditor s \<longrightarrow> applyDecorationsToVditor (Some d) r s = s)
     \<and> (vditor s \<longrightarrow>
          applyDecorationsToVditor (Some d) r s \<noteq> s
          \<and> timers (applyDecorationsToVditor (Some d) r s) = timers s @ [Deferred d r])
     \<and> (vditor s \<and> previousMode s = None \<longrightarrow>
          previousMode (applyDecorationsToVditor (Some d) r s)
          = Some (case currentMode s of Some m \<Rightarrow> m | None \<Rightarrow> Ir))
     \<and> (vditor s \<and> irContainer s = Some els \<longrightarrow>
          irContainer (applyDecorationsToVditor (Some d) r s) = Some (untagged els)
          \<and> toolbar (applyDecorationsToVditor (Some d) r s)
              = map_option (\<lambda>v. False) (toolbar s))
     \<and> (vditor s \<and> irContainer s = None \<longrightarrow>
          irContainer (applyDecorationsToVditor (Some d) r s) = None
          \<and> toolbar (applyDecorationsToVditor (Some d) r s) = toolbar s)
     \<and> (vditor s \<and> irContainer s = Some els \<and> timers s = [] \<longrightarrow>
          (\<exists>s'. run [Apply (Some d), Timeout] s = Inr s'
             \<and> irContainer s' = Some (untagged els)
             \<and> toolbar s' = map_option (\<lambda>v. False) (toolbar s)
             \<and> timers s' = []))"
proof (intro impI conjI)
  assume e: "added d = [] \<and> deleted d = [] \<and> modified d = []"
  have pass: "deferredCallback d r' t = Inr t" if "vditor t" "irContainer t = Some els'"
    for t els' r'
  proof -
    have "t\<lparr>irContainer := Some els'\<rparr> = t" using that(2) by (cases t) simp
    with e that show ?thesis by (simp add: deferredCallback_def tagLines_def Let_def)
  qed
  show "\<exists>s'. deferredCallback d r s = Inr s' \<and> irContainer s' = irContainer s
      \<and> toolbar s' = toolbar s"
  proof (cases "vditor s \<and> irContainer s \<noteq> None")
    case True
    then obtain els' where "vditor s" "irContainer s = Some els'" by auto
    then have "deferredCallback d r s = Inr s" by (rule pass)
    then show ?thesis by simp
  next
    case False
    then have "\<not> vditor s \<or> irContainer s = None" by blast
    then have "deferredCallback d r s = Inr (if r < 5 then setTimeout (Retry d r) s else s)"
      by (rule deferredCallback_missing)
    then show ?thesis by (simp add: setTimeout_def)
  qed
  {
    assume "vditor s \<and> irContainer s = Some els"
    then show "deferredCallback d r s = Inr s" using pass by blast
  }
  {
    assume "\<not> vditor s"
    then show "applyDecorationsToVditor (Some d) r s = s"
      by (simp add: applyDecorationsToVditor_def)
  }
  {
    assume v: "vditor s"
    then show t: "timers (applyDecorationsToVditor (Some d) r s) = timers s @ [Deferred d r]"
      by (rule applyDecorationsToVditor_timers)
    show "applyDecorationsToVditor (Some d) r s \<noteq> s"
    proof
      assume "applyDecorationsToVditor (Some d) r s = s"
      with t have "timers s = timers s @ [Deferred d r]" by simp
      then show False by simp
    qed
  }
  {
    assume "vditor s \<and> previousMode s = None"
    then show "previousMode (applyDecorationsToVditor (Some d) r s)
          = Some (case currentMode s of Some m \<Rightarrow> m | None \<Rightarrow> Ir)"
      by (simp add: applyDecorationsToVditor_saves)
  }
  {
    assume h: "vditor s \<and> irContainer s = Some els"
    then show "irContainer (applyDecorationsToVditor (Some d) r s) = Some (untagged els)"
      by (simp add: applyDecorationsToVditor_present)
    from h show "toolbar (applyDecorationsToVditor (Some d) r s)
        = map_option (\<lambda>v. False) (toolbar s)"
      by (simp add: applyDecorationsToVditor_present)
  }
  {
    assume h: "vditor s \<and> irContainer s = None"
    then show "irContainer (applyDecorationsToVditor (Some d) r s) = None"
      by (simp add: applyDecorationsToVditor_no_tree)
    from h show "toolbar (applyDecorationsToVditor (Some d) r s) = toolbar s"
      by (simp add: applyDecorationsToVditor_no_tree)
  }
  {
    assume h: "vditor s \<and> irContainer s = Some els \<and> timers s = []"
    define t where "t = s\<lparr>irContainer := Some (untagged els),
               previousMode := Some (case currentMode s of Some m \<Rightarrow> m | None \<Rightarrow> Ir),
               toolbar := map_option (\<lambda>v. False) (toolbar s)\<rparr>"
    have a: "applyDecorationsToVditor (Some d) 0 s = t\<lparr>timers := [Deferred d 0]\<rparr>"
      using h by (simp add: applyDecorationsToVditor_present t_def)
    have tt: "t\<lparr>timers := []\<rparr> = t" using h by (simp add: t_def)
    have "vditor t" "irContainer t = Some (untagged els)" using h by (simp_all add: t_def)
    then have "deferredCallback d 0 t = Inr t" by (rule pass)
    then have "timeout (t\<lparr>timers := [Deferred d 0]\<rparr>) = Inr t"
      by (simp add: timeout_def tt)
    with a have "run [Apply (Some d), Timeout] s = Inr t" by simp
    moreover have "irContainer t = Some (untagged els)"
      "toolbar t = map_option (\<lambda>v. False) (toolbar s)" "timers t = []"
      using h by (simp_all add: t_def)
    ultimately show "\<exists>s'. run [Apply (Some d), Timeout] s = Inr s'
             \<and> irContainer s' = Some (untagged els)
             \<and> toolbar s' = map_option (\<lambda>v. False) (toolbar s)
             \<and> timers s' = []"
      by blast
  }
qed

theorem empty_apply_witness:
  "added \<lparr>added = [], deleted = [], modified = []\<rparr> = []
   \<and> deleted \<lparr>added = [], deleted = [], modified = []\<rparr> = []
   \<and> modified \<lparr>added = [], deleted = [], modified = []\<rparr> = []
   \<and> vditor ((rendered (str ''alpha'')
                 [(pElement (str ''alpha''))\<lparr>classList := [''cline-added-line'']\<rparr>])
               \<lparr>previousMode := Some Ir, toolbar := Some True\<rparr>)
   \<and> irContainer ((rendered (str ''alpha'')
                 [(pElement (str ''alpha''))\<lparr>classList := [''cline-added-line'']\<rparr>])
               \<lparr>previousMode := Some Ir, toolbar := Some True\<rparr>)
       = Some [(pElement (str ''alpha''))\<lparr>classList := [''cline-added-line'']\<rparr>]
   \<and> timers ((rendered (str ''alpha'')
                 [(pElement (str ''alpha''))\<lparr>classList := [''cline-added-line'']\<rparr>])
               \<lparr>previousMode := Some Ir, toolbar := Some True\<rparr>) = []
   \<and> (\<exists>s'. run [Apply (Some \<lparr>added = [], deleted = [], modified = []\<rparr>), Timeout]
              ((rendered (str ''alpha'')
                  [(pElement (str ''alpha''))\<lparr>classList := [''cline-added-line'']\<rparr>])
                \<lparr>previousMode := Some Ir, toolbar := Some True\<rparr>) = Inr s'
          \<and> irContainer s' = Some [pElement (str ''alpha'')]
          \<and> toolbar s' = Some False \<and> timers s' = [])
   \<and> deferredCallback \<lparr>added = [], deleted = [], modified = []\<rparr> 0
        ((rendered (str ''alpha'')
            [(pElement (str ''alpha''))\<lparr>classList := [''cline-added-line'']\<rparr>])
          \<lparr>previousMode := Some Ir, toolbar := Some True\<rparr>)
       = Inr ((rendered (str ''alpha'')
            [(pElement (str ''alpha''))\<lparr>classList := [''cline-added-line'']\<rparr>])
          \<lparr>previousMode := Some Ir, toolbar := Some True\<rparr>)
   \<and> vditor (document (str ''alpha'')) \<and> irContainer (document (str ''alpha'')) = None
   \<and> previousMode (document (str ''alpha'')) = None
   \<and> applyDecorationsToVditor (Some \<lparr>added = [], deleted = [], modified = []\<rparr>) 0
        (document (str ''alpha'')) \<noteq> document (str ''alpha'')
   \<and> timers (applyDecorationsToVditor (Some \<lparr>added = [], deleted = [], modified = []\<rparr>) 0
        (document (str ''alpha'')))
       = [Deferred \<lparr>added = [], deleted = [], modified = []\<rparr> 0]
   \<and> previousMode (applyDecorationsToVditor (Some \<lparr>added = [], deleted = [], modified = []\<rparr>)
        0 (document (str ''alpha''))) = Some Ir
   \<and> irContainer (applyDecorationsToVditor (Some \<lparr>added = [], deleted = [], modified = []\<rparr>)
        0 (document (str ''alpha''))) = None
   \<and> toolbar (applyDecorationsToVditor (Some \<lparr>added = [], deleted = [], modified = []\<rparr>)
        0 (document (str ''alpha''))) = None
   \<and> \<not> vditor ((document (str ''alpha''))\<lparr>vditor := False\<rparr>)
   \<and> applyDecorationsToVditor (Some \<lparr>added = [], deleted = [], modified = []\<rparr>) 0
        ((document (str ''alpha''))\<lparr>vditor := False\<rparr>)
       = (document (str ''alpha''))\<lparr>vditor := False\<rparr>"
proof -
  let ?d = "\<lparr>added = [], deleted = [], modified = []\<rparr>"
  let ?els = "[(pElement (str ''alpha''))\<lparr>classList := [''cline-added-line'']\<rparr>]"
  let ?s = "(rendered (str ''alpha'') ?els)\<lparr>previousMode := Some Ir, toolbar := Some True\<rparr>"
  let ?u = "document (str ''alpha'')"
  let ?w = "(document (str ''alpha''))\<lparr>vditor := False\<rparr>"
  have h0: "added ?d = [] \<and> deleted ?d = [] \<and> modified ?d = []" by simp
  have h1: "vditor ?s" by (simp add: rendered_def document_def)
  have h2: "irContainer ?s = Some ?els" by (simp add: rendered_def)
  have h3: "timers ?s = []" by (simp add: rendered_def document_def)
  have ts: "toolbar ?s = Some True" by simp
  have u: "untagged ?els = [pElement (str ''alpha'')]"
    by (simp add: untagged_def isDecorated_def removeDecorationClasses_def decorationClasses_def
        pElement_def)
  have k1: "vditor ?u" by (simp add: document_def)
  have k2: "irContainer ?u = None" by (simp add: document_def)
  have k3: "previousMode ?u = None" by (simp add: document_def)
  have k4: "timers ?u = []" "currentMode ?u = Some Ir" "toolbar ?u = None"
    by (simp_all add: document_def)
  have w1: "\<not> vditor ?w" by simp
  from empty_apply [where d = ?d and s = ?s and els = ?els and r = 0] h0 h1 h2 h3
  have "\<exists>s'. run [Apply (Some ?d), Timeout] ?s = Inr s'
      \<and> irContainer s' = Some (untagged ?els)
      \<and> toolbar s' = map_option (\<lambda>v. False) (toolbar ?s) \<and> timers s' = []"
    by blast
  then have a: "\<exists>s'. run [Apply (Some ?d), Timeout] ?s = Inr s'
      \<and> irContainer s' = Some [pElement (str ''alpha'')]
      \<and> toolbar s' = Some False \<and> timers s' = []"
    unfolding u ts by simp
  from empty_apply [where d = ?d and s = ?s and els = ?els and r = 0] h0 h1 h2
  have b: "deferredCallback ?d 0 ?s = Inr ?s" by blast
  from empty_apply [where d = ?d and s = ?u and r = 0] h0 k1 k2 k3
  have "applyDecorationsToVditor (Some ?d) 0 ?u \<noteq> ?u"
    and "timers (applyDecorationsToVditor (Some ?d) 0 ?u) = timers ?u @ [Deferred ?d 0]"
    and "previousMode (applyDecorationsToVditor (Some ?d) 0 ?u)
        = Some (case currentMode ?u of Some m \<Rightarrow> m | None \<Rightarrow> Ir)"
    and "irContainer (applyDecorationsToVditor (Some ?d) 0 ?u) = None"
    and "toolbar (applyDecorationsToVditor (Some ?d) 0 ?u) = toolbar ?u"
    by blast+
  then have c: "applyDecorationsToVditor (Some ?d) 0 ?u \<noteq> ?u"
    "timers (applyDecorationsToVditor (Some ?d) 0 ?u) = [Deferred ?d 0]"
    "previousMode (applyDecorationsToVditor (Some ?d) 0 ?u) = Some Ir"
    "irContainer (applyDecorationsToVditor (Some ?d) 0 ?u) = None"
    "toolbar (applyDecorationsToVditor (Some ?d) 0 ?u) = None"
    unfolding k4 by simp_all
  from empty_apply [where d = ?d and s = ?w and r = 0] h0 w1
  have e: "applyDecorationsToVditor (Some ?d) 0 ?w = ?w" by blast
  from h0 h1 h2 h3 a b k1 k2 k3 c w1 e show ?thesis by blast
qed

text \<open>
  The claim C3 as the specification states it fails: on an idle page (no mode saved, no
  tag, no toolbar) the call with the empty change set saves the mode and sets a
  timeout; and on a page with a tagged element and a visible toolbar it removes the tag
  and hides the toolbar.
\<close>

theorem empty_apply_not_noop:
  "previousMode (rendered (str ''alpha'') [pElement (str ''alpha'')]) = None
   \<and> applyDecorationsToVditor (Some \<lparr>added = [], deleted = [], modified = []\<rparr>) 0
        (rendered (str ''alpha'') [pElement (str ''alpha'')])
       = (rendered (str ''alpha'') [pElement (str ''alpha'')])
           \<lparr>previousMode := Some Ir,
            timers := [Deferred \<lparr>added = [], deleted = [], modified = []\<rparr> 0]\<rparr>
   \<and> applyDecorationsToVditor (Some \<lparr>added = [], deleted = [], modified = []\<rparr>) 0
        ((rendered (str ''alpha'')
            [(pElement (str ''alpha''))\<lparr>classList := [''cline-added-line'']\<rparr>])
          \<lparr>previousMode := Some Ir, toolbar := Some True\<rparr>)
       = (rendered (str ''alpha'') [pElement (str ''alpha'')])
           \<lparr>previousMode := Some Ir, toolbar := Some False,
            timers := [Deferred \<lparr>added = [], deleted = [], modified = []\<rparr> 0]\<rparr>"
  by code_simp

text \<open>
  C1, as the code has it. There is no generation token: what a pending retry or a
  pending deferred pass does when it fires depends on the page at that moment alone,
  whatever has run since it was set. A retry that fires with the editor missing does
  nothing. With the editor present it sets the deferred pass again, with
  \<open>retry + 1\<close>; with the tree present it first removes every decoration class (those
  of a later apply too) and hides the toolbar, with the tree missing it leaves tree and
  toolbar as they are. A deferred pass that fires while the editor or the tree is
  missing sets a retry when its \<open>retry\<close> is below 5, and nothing otherwise. A deferred
  pass that fires with the editor and the tree present tags: every line of its change
  set that is a line of the source and that the mapper maps to an element leaves the
  class of its category on that element, and the toolbar is shown when the change set
  is not empty.
\<close>

theorem stale_retry_reapplies:
  "(vditor s \<and> irContainer s = Some els \<and> timers s = Retry d r # ts \<longrightarrow>
      (\<exists>s'. timeout s = Inr s' \<and> irContainer s' = Some (untagged els)
         \<and> toolbar s' = map_option (\<lambda>v. False) (toolbar s)
         \<and> timers s' = ts @ [Deferred d (r + 1)]))
   \<and> (vditor s \<and> irContainer s = None \<and> timers s = Retry d r # ts \<longrightarrow>
      (\<exists>s'. timeout s = Inr s' \<and> irContainer s' = None \<and> toolbar s' = toolbar s
         \<and> timers s' = ts @ [Deferred d (r + 1)]))
   \<and> (\<not> vditor s \<and> timers s = Retry d r # ts \<longrightarrow> timeout s = Inr (s\<lparr>timers := ts\<rparr>))
   \<and> ((\<not> vditor s \<or> irContainer s = None) \<and> timers s = Deferred d r # ts \<longrightarrow>
      timeout s = Inr (s\<lparr>timers := (if r < 5 then ts @ [Retry d r] else ts)\<rparr>))
   \<and> (vditor s \<and> irContainer s = Some els \<and> timers s = Deferred d r # ts \<longrightarrow>
       (\<exists>s' els'. timeout s = Inr s' \<and> irContainer s' = Some els' \<and> length els' = length els
          \<and> timers s' = ts
          \<and> toolbar s' = (if added d @ deleted d @ modified d \<noteq> [] then Some True
                          else toolbar s)
          \<and> (\<forall>n el. 0 \<le> n \<and> n < int (length (split nl (getValue s)))
                 \<and> buildLineToElementMap els (split nl (getValue s)) (nat n) = Some el \<longrightarrow>
                 (n \<in> set (added d) \<longrightarrow> ''cline-added-line'' \<in> set (classList (els' ! el)))
               \<and> (n \<in> set (deleted d) \<longrightarrow> ''cline-deleted-line'' \<in> set (classList (els' ! el)))
               \<and> (n \<in> set (modified d) \<longrightarrow>
                    ''cline-modified-line'' \<in> set (classList (els' ! el))))))"
proof (intro conjI impI)
  assume h: "vditor s \<and> irContainer s = Some els \<and> timers s = Retry d r # ts"
  then have "vditor (s\<lparr>timers := ts\<rparr>)" "irContainer (s\<lparr>timers := ts\<rparr>) = Some els" by simp_all
  from applyDecorationsToVditor_present [OF this, of d "r + 1"] h
  have "timeout s
      = Inr (s\<lparr>irContainer := Some (untagged els),
                previousMode := Some (case currentMode s of Some m \<Rightarrow> m | None \<Rightarrow> Ir),
                toolbar := map_option (\<lambda>v. False) (toolbar s),
                timers := ts @ [Deferred d (r + 1)]\<rparr>)"
    by (simp add: timeout_def)
  then show "\<exists>s'. timeout s = Inr s' \<and> irContainer s' = Some (untagged els)
         \<and> toolbar s' = map_option (\<lambda>v. False) (toolbar s)
         \<and> timers s' = ts @ [Deferred d (r + 1)]"
    by simp
next
  assume h: "vditor s \<and> irContainer s = None \<and> timers s = Retry d r # ts"
  then have "vditor (s\<lparr>timers := ts\<rparr>)" "irContainer (s\<lparr>timers := ts\<rparr>) = None" by simp_all
  from applyDecorationsToVditor_no_tree [OF this, of d "r + 1"]
  have "irContainer (applyDecorationsToVditor (Some d) (r + 1) (s\<lparr>timers := ts\<rparr>)) = None"
    "toolbar (applyDecorationsToVditor (Some d) (r + 1) (s\<lparr>timers := ts\<rparr>)) = toolbar s"
    "timers (applyDecorationsToVditor (Some d) (r + 1) (s\<lparr>timers := ts\<rparr>))
       = ts @ [Deferred d (r + 1)]"
    by simp_all
  moreover have "timeout s = Inr (applyDecorationsToVditor (Some d) (r + 1) (s\<lparr>timers := ts\<rparr>))"
    using h by (simp add: timeout_def)
  ultimately show "\<exists>s'. timeout s = Inr s' \<and> irContainer s' = None \<and> toolbar s' = toolbar s
         \<and> timers s' = ts @ [Deferred d (r + 1)]"
    by blast
next
  assume "\<not> vditor s \<and> timers s = Retry d r # ts"
  then show "timeout s = Inr (s\<lparr>timers := ts\<rparr>)"
    by (simp add: timeout_def applyDecorationsToVditor_def)
next
  assume h: "(\<not> vditor s \<or> irContainer s = None) \<and> timers s = Deferred d r # ts"
  then have "\<not> vditor (s\<lparr>timers := ts\<rparr>) \<or> irContainer (s\<lparr>timers := ts\<rparr>) = None" by auto
  from deferredCallback_missing [OF this, of d r] h
  show "timeout s = Inr (s\<lparr>timers := (if r < 5 then ts @ [Retry d r] else ts)\<rparr>)"
    by (simp add: timeout_def setTimeout_def)
next
  assume h: "vditor s \<and> irContainer s = Some els \<and> timers s = Deferred d r # ts"
  define t where "t = s\<lparr>timers := ts\<rparr>"
  define lines where "lines = split nl (getValue s)"
  define m where "m = buildLineToElementMap els lines"
  have t: "vditor t" "irContainer t = Some els" "getValue t = getValue s" "toolbar t = toolbar s"
    using h by (simp_all add: t_def)
  from deferredCallback_present [OF t(1,2), of d r] obtain els' where
    tl: "tagLines lines m d els = Inr els'"
    and c: "deferredCallback d r t
        = Inr (if added d @ deleted d @ modified d \<noteq> []
               then showFloatingToolbar (t\<lparr>irContainer := Some els'\<rparr>)
               else t\<lparr>irContainer := Some els'\<rparr>)"
    unfolding t(3) lines_def m_def by blast
  define s' where "s' = (if added d @ deleted d @ modified d \<noteq> []
               then showFloatingToolbar (t\<lparr>irContainer := Some els'\<rparr>)
               else t\<lparr>irContainer := Some els'\<rparr>)"
  have fire: "timeout s = Inr s'" using h c by (simp add: timeout_def t_def s'_def)
  have p1: "irContainer s' = Some els'" by (simp add: s'_def showFloatingToolbar_def)
  have p2: "length els' = length els" by (rule tagLines_props(1) [OF tl])
  have p3: "timers s' = ts" by (simp add: s'_def showFloatingToolbar_def t_def)
  have p4: "toolbar s' = (if added d @ deleted d @ modified d \<noteq> [] then Some True
                          else toolbar s)"
    by (simp add: s'_def showFloatingToolbar_def t(4))
  have p5: "(n \<in> set (added d) \<longrightarrow> ''cline-added-line'' \<in> set (classList (els' ! el)))
      \<and> (n \<in> set (deleted d) \<longrightarrow> ''cline-deleted-line'' \<in> set (classList (els' ! el)))
      \<and> (n \<in> set (modified d) \<longrightarrow> ''cline-modified-line'' \<in> set (classList (els' ! el)))"
    if n: "0 \<le> n \<and> n < int (length lines) \<and> m (nat n) = Some el" for n el
  proof -
    from n have b: "el < length els"
      unfolding m_def by (blast intro: buildLineToElementMap_bound)
    from n b tagLines_props(2,3,4) [OF tl, of n el] show ?thesis by blast
  qed
  from fire p1 p2 p3 p4 p5
  show "\<exists>s' els'. timeout s = Inr s' \<and> irContainer s' = Some els' \<and> length els' = length els
          \<and> timers s' = ts
          \<and> toolbar s' = (if added d @ deleted d @ modified d \<noteq> [] then Some True
                          else toolbar s)
          \<and> (\<forall>n el. 0 \<le> n \<and> n < int (length (split nl (getValue s)))
                 \<and> buildLineToElementMap els (split nl (getValue s)) (nat n) = Some el \<longrightarrow>
                 (n \<in> set (added d) \<longrightarrow> ''cline-added-line'' \<in> set (classList (els' ! el)))
               \<and> (n \<in> set (deleted d) \<longrightarrow> ''cline-deleted-line'' \<in> set (classList (els' ! el)))
               \<and> (n \<in> set (modified d) \<longrightarrow>
                    ''cline-modified-line'' \<in> set (classList (els' ! el))))"
    unfolding lines_def [symmetric] m_def [symmetric] by blast
qed

theorem stale_retry_reapplies_witness:
  "vditor ((rendered (str ''alpha\<newline>beta'') twoParagraphs)
             \<lparr>previousMode := Some Ir, timers := [Retry changeSetA 0, Deferred changeSetB 0]\<rparr>)
   \<and> irContainer ((rendered (str ''alpha\<newline>beta'') twoParagraphs)
             \<lparr>previousMode := Some Ir, timers := [Retry changeSetA 0, Deferred changeSetB 0]\<rparr>)
       = Some twoParagraphs
   \<and> timers ((rendered (str ''alpha\<newline>beta'') twoParagraphs)
             \<lparr>previousMode := Some Ir, timers := [Retry changeSetA 0, Deferred changeSetB 0]\<rparr>)
       = Retry changeSetA 0 # [Deferred changeSetB 0]
   \<and> (\<exists>s'. timeout ((rendered (str ''alpha\<newline>beta'') twoParagraphs)
             \<lparr>previousMode := Some Ir, timers := [Retry changeSetA 0, Deferred changeSetB 0]\<rparr>)
           = Inr s'
         \<and> irContainer s' = Some twoParagraphs \<and> toolbar s' = None
         \<and> timers s' = [Deferred changeSetB 0, Deferred changeSetA 1])
   \<and> timers ((rendered (str ''alpha\<newline>beta'') twoParagraphs)
             \<lparr>previousMode := Some Ir, timers := [Deferred changeSetA 1]\<rparr>)
       = Deferred changeSetA 1 # []
   \<and> buildLineToElementMap twoParagraphs (split nl (str ''alpha\<newline>beta'')) 0 = Some 0
   \<and> (\<exists>s' els'. timeout ((rendered (str ''alpha\<newline>beta'') twoParagraphs)
             \<lparr>previousMode := Some Ir, timers := [Deferred changeSetA 1]\<rparr>) = Inr s'
         \<and> irContainer s' = Some els' \<and> toolbar s' = Some True
         \<and> ''cline-added-line'' \<in> set (classList (els' ! 0)))
   \<and> vditor ((document (str ''alpha\<newline>beta''))\<lparr>timers := [Retry changeSetA 7]\<rparr>)
   \<and> irContainer ((document (str ''alpha\<newline>beta''))\<lparr>timers := [Retry changeSetA 7]\<rparr>) = None
   \<and> (\<exists>s'. timeout ((document (str ''alpha\<newline>beta''))\<lparr>timers := [Retry changeSetA 7]\<rparr>)
           = Inr s'
         \<and> irContainer s' = None \<and> toolbar s' = None \<and> timers s' = [Deferred changeSetA 8])
   \<and> \<not> vditor ((document (str ''alpha\<newline>beta''))
                  \<lparr>vditor := False, timers := [Retry changeSetA 0]\<rparr>)
   \<and> timeout ((document (str ''alpha\<newline>beta''))
                  \<lparr>vditor := False, timers := [Retry changeSetA 0]\<rparr>)
       = Inr ((document (str ''alpha\<newline>beta''))\<lparr>vditor := False, timers := []\<rparr>)
   \<and> timeout ((document (str ''alpha\<newline>beta''))\<lparr>timers := [Deferred changeSetA 4]\<rparr>)
       = Inr ((document (str ''alpha\<newline>beta''))\<lparr>timers := [Retry changeSetA 4]\<rparr>)
   \<and> timeout ((document (str ''alpha\<newline>beta''))\<lparr>timers := [Deferred changeSetA 5]\<rparr>)
       = Inr ((document (str ''alpha\<newline>beta''))\<lparr>timers := []\<rparr>)"
proof -
  let ?s1 = "(rendered (str ''alpha\<newline>beta'') twoParagraphs)
             \<lparr>previousMode := Some Ir, timers := [Retry changeSetA 0, Deferred changeSetB 0]\<rparr>"
  let ?s2 = "(rendered (str ''alpha\<newline>beta'') twoParagraphs)
             \<lparr>previousMode := Some Ir, timers := [Deferred changeSetA 1]\<rparr>"
  let ?s3 = "(document (str ''alpha\<newline>beta''))\<lparr>timers := [Retry changeSetA 7]\<rparr>"
  let ?s4 = "(document (str ''alpha\<newline>beta''))\<lparr>vditor := False, timers := [Retry changeSetA 0]\<rparr>"
  let ?s5 = "(document (str ''alpha\<newline>beta''))\<lparr>timers := [Deferred changeSetA 4]\<rparr>"
  let ?s6 = "(document (str ''alpha\<newline>beta''))\<lparr>timers := [Deferred changeSetA 5]\<rparr>"
  have a1: "vditor ?s1" "vditor ?s2" by (simp_all add: rendered_def document_def)
  have a2: "irContainer ?s1 = Some twoParagraphs" "irContainer ?s2 = Some twoParagraphs"
    by (simp_all add: rendered_def)
  have a3: "timers ?s1 = Retry changeSetA 0 # [Deferred changeSetB 0]" by simp
  have a4: "timers ?s2 = Deferred changeSetA 1 # []" by simp
  have a5: "toolbar ?s1 = None" by (simp add: rendered_def document_def)
  have u: "untagged twoParagraphs = twoParagraphs" by code_simp
  have m: "buildLineToElementMap twoParagraphs (split nl (str ''alpha\<newline>beta'')) 0 = Some 0"
    by code_simp
  have len: "int (length (split nl (str ''alpha\<newline>beta''))) = 2" by code_simp
  have g: "getValue ?s2 = str ''alpha\<newline>beta''" by (simp add: rendered_def document_def)
  from stale_retry_reapplies [where s = ?s1 and els = twoParagraphs and d = changeSetA
      and r = 0 and ts = "[Deferred changeSetB 0]"] a1(1) a2(1) a3
  have "\<exists>s'. timeout ?s1 = Inr s' \<and> irContainer s' = Some (untagged twoParagraphs)
      \<and> toolbar s' = map_option (\<lambda>v. False) (toolbar ?s1)
      \<and> timers s' = [Deferred changeSetB 0] @ [Deferred changeSetA (0 + 1)]"
    by blast
  then have b1: "\<exists>s'. timeout ?s1 = Inr s' \<and> irContainer s' = Some twoParagraphs
      \<and> toolbar s' = None \<and> timers s' = [Deferred changeSetB 0, Deferred changeSetA 1]"
    unfolding u a5 by simp
  from stale_retry_reapplies [where s = ?s2 and els = twoParagraphs and d = changeSetA
      and r = 1 and ts = "[]"] a1(2) a2(2) a4
  obtain s' els' where c: "timeout ?s2 = Inr s'" "irContainer s' = Some els'"
    "toolbar s' = (if added changeSetA @ deleted changeSetA @ modified changeSetA \<noteq> []
                   then Some True else toolbar ?s2)"
    "\<forall>n el. 0 \<le> n \<and> n < int (length (split nl (getValue ?s2)))
        \<and> buildLineToElementMap twoParagraphs (split nl (getValue ?s2)) (nat n) = Some el \<longrightarrow>
        (n \<in> set (added changeSetA) \<longrightarrow> ''cline-added-line'' \<in> set (classList (els' ! el)))
      \<and> (n \<in> set (deleted changeSetA) \<longrightarrow> ''cline-deleted-line'' \<in> set (classList (els' ! el)))
      \<and> (n \<in> set (modified changeSetA) \<longrightarrow>
           ''cline-modified-line'' \<in> set (classList (els' ! el)))"
    by blast
  from c(3) have c3: "toolbar s' = Some True" by (simp add: changeSetA_def)
  from c(4) [rule_format, of 0 0] m len
  have c4: "''cline-added-line'' \<in> set (classList (els' ! 0))"
    unfolding g by (simp add: changeSetA_def)
  have b2: "\<exists>s' els'. timeout ?s2 = Inr s' \<and> irContainer s' = Some els' \<and> toolbar s' = Some True
      \<and> ''cline-added-line'' \<in> set (classList (els' ! 0))"
    using c(1,2) c3 c4 by blast
  have d1: "vditor ?s3" "irContainer ?s3 = None" "toolbar ?s3 = None"
    "timers ?s3 = Retry changeSetA 7 # []"
    by (simp_all add: document_def)
  from stale_retry_reapplies [where s = ?s3 and d = changeSetA and r = 7 and ts = "[]"] d1
  have "\<exists>s'. timeout ?s3 = Inr s' \<and> irContainer s' = None \<and> toolbar s' = toolbar ?s3
      \<and> timers s' = [] @ [Deferred changeSetA (7 + 1)]"
    by blast
  then have b3: "\<exists>s'. timeout ?s3 = Inr s' \<and> irContainer s' = None \<and> toolbar s' = None
      \<and> timers s' = [Deferred changeSetA 8]"
    unfolding d1(3) by simp
  have e1: "\<not> vditor ?s4" "timers ?s4 = Retry changeSetA 0 # []" by simp_all
  from stale_retry_reapplies [where s = ?s4 and d = changeSetA and r = 0 and ts = "[]"] e1
  have "timeout ?s4 = Inr (?s4\<lparr>timers := []\<rparr>)" by blast
  then have b4: "timeout ?s4
      = Inr ((document (str ''alpha\<newline>beta''))\<lparr>vditor := False, timers := []\<rparr>)"
    by simp
  have f1: "irContainer ?s5 = None" "timers ?s5 = Deferred changeSetA 4 # []"
    "irContainer ?s6 = None" "timers ?s6 = Deferred changeSetA 5 # []"
    by (simp_all add: document_def)
  from stale_retry_reapplies [where s = ?s5 and d = changeSetA and r = 4 and ts = "[]"] f1(1,2)
  have "timeout ?s5
      = Inr (?s5\<lparr>timers := (if (4::nat) < 5 then [] @ [Retry changeSetA 4] else [])\<rparr>)"
    by blast
  then have b5: "timeout ?s5
      = Inr ((document (str ''alpha\<newline>beta''))\<lparr>timers := [Retry changeSetA 4]\<rparr>)"
    by simp
  from stale_retry_reapplies [where s = ?s6 and d = changeSetA and r = 5 and ts = "[]"] f1(3,4)
  have "timeout ?s6
      = Inr (?s6\<lparr>timers := (if (5::nat) < 5 then [] @ [Retry changeSetA 5] else [])\<rparr>)"
    by blast
  then have b6: "timeout ?s6 = Inr ((document (str ''alpha\<newline>beta''))\<lparr>timers := []\<rparr>)"
    by simp
  from a1(1) a2(1) a3 b1 a4 m b2 d1(1,2) b3 e1(1) b4 b5 b6 show ?thesis by blast
qed

text \<open>
  The claim C1 as the specification states it fails. \<open>apply(A)\<close> runs while the tree
  is missing, and its deferred pass sets a retry; the tree is rendered, \<open>clear()\<close> and
  \<open>apply(B)\<close> run; the page then holds no tag, and A's retry and B's deferred pass are
  pending. The three timeouts that follow (A's stale retry, B's pass, the pass that the
  retry has set) end with A's class on the first paragraph.
\<close>

theorem stale_retry_tags:
  "run [Apply (Some changeSetA), Timeout, Render (Some twoParagraphs), Clear,
        Apply (Some changeSetB)]
     (document (str ''alpha\<newline>beta''))
   = Inr ((rendered (str ''alpha\<newline>beta'') twoParagraphs)
            \<lparr>previousMode := Some Ir, timers := [Retry changeSetA 0, Deferred changeSetB 0]\<rparr>)
   \<and> run [Timeout, Timeout, Timeout]
       ((rendered (str ''alpha\<newline>beta'') twoParagraphs)
          \<lparr>previousMode := Some Ir, timers := [Retry changeSetA 0, Deferred changeSetB 0]\<rparr>)
     = Inr ((rendered (str ''alpha\<newline>beta'')
               [(pElement (str ''alpha''))\<lparr>classList := [''cline-added-line'']\<rparr>,
                (pElement (str ''beta''))\<lparr>classList := [''cline-modified-line'']\<rparr>])
            \<lparr>previousMode := Some Ir, toolbar := Some True\<rparr>)"
  by code_simp

text \<open>
  C2 fails on the code. \<open>applyDecorationsToVditor\<close> calls \<open>clearDecorations\<close> before
  it tests \<open>previousMode === null\<close>, and \<open>clearDecorations\<close> has just reset
  \<open>previousMode\<close>: with the tree present every apply saves the mode anew. The first
  apply saves \<open>ir\<close>; the user switches to \<open>wysiwyg\<close>; the second apply saves
  \<open>wysiwyg\<close>; \<open>clearDecorations\<close> then resets the saved mode and restores nothing.
\<close>

theorem nested_apply_overwrites_saved_mode:
  "map_sum id previousMode
     (run [Apply (Some \<lparr>added = [], deleted = [], modified = [0]\<rparr>), Timeout]
        (rendered (str ''alpha\<newline>beta'') twoParagraphs))
   = Inr (Some Ir)
   \<and> map_sum id previousMode
       (run [Apply (Some \<lparr>added = [], deleted = [], modified = [0]\<rparr>), Timeout,
             SwitchMode Wysiwyg,
             Apply (Some \<lparr>added = [1], deleted = [], modified = []\<rparr>), Timeout]
          (rendered (str ''alpha\<newline>beta'') twoParagraphs))
     = Inr (Some Wysiwyg)
   \<and> run [Apply (Some \<lparr>added = [], deleted = [], modified = [0]\<rparr>), Timeout,
           SwitchMode Wysiwyg,
           Apply (Some \<lparr>added = [1], deleted = [], modified = []\<rparr>), Timeout,
           Clear]
        (rendered (str ''alpha\<newline>beta'') twoParagraphs)
     = Inr ((rendered (str ''alpha\<newline>beta'') twoParagraphs)
              \<lparr>currentMode := Some Wysiwyg, toolbar := Some False\<rparr>)"
  by code_simp

end
